theory Spec2Isabelle
  imports Main "HOL-Library.Sublist"
begin

section \<open>JavaScript values\<close>

text \<open>
  The provider forwards documents, conditions, options and errors without looking inside
  them, apart from truthiness tests (\<^verbatim>\<open>if (err)\<close>, \<^verbatim>\<open>if (!doc)\<close>), the
  \<^verbatim>\<open>length\<close> and first element of an insert result, and two property writes on index
  options. \<open>Error m\<close> is \<^verbatim>\<open>new Error(m)\<close>, \<open>TypeError m\<close> the error the engine
  raises when a non-function is called or a property of \<^verbatim>\<open>undefined\<close> is accessed,
  \<open>Handle n\<close> the collection object the driver hands out for the collection \<open>n\<close>.
\<close>

datatype jsval =
    Undefined
  | Null
  | Bool bool
  | Num int
  | Str string
  | Arr "jsval list"
  | Obj "(string \<times> jsval) list"
  | Error string
  | TypeError string
  | Handle jsval

fun truthy :: "jsval \<Rightarrow> bool" where
  "truthy Undefined = False"
| "truthy Null = False"
| "truthy (Bool b) = b"
| "truthy (Num n) = (n \<noteq> 0)"
| "truthy (Str s) = (s \<noteq> [])"
| "truthy (Arr xs) = True"
| "truthy (Obj kvs) = True"
| "truthy (Error m) = True"
| "truthy (TypeError m) = True"
| "truthy (Handle n) = True"

text \<open>\<^verbatim>\<open>arguments[i]\<close> of a call: a missing argument reads as \<^verbatim>\<open>undefined\<close>.\<close>

definition arg_at :: "jsval list \<Rightarrow> nat \<Rightarrow> jsval" where
  "arg_at args i = (if i < length args then args ! i else Undefined)"

text \<open>\<^verbatim>\<open>result.length\<close> and \<^verbatim>\<open>result[0]\<close>, read on a value that is neither
  \<^verbatim>\<open>undefined\<close> nor \<^verbatim>\<open>null\<close>.\<close>

fun js_length :: "jsval \<Rightarrow> jsval" where
  "js_length (Arr xs) = Num (int (length xs))"
| "js_length (Str s) = Num (int (length s))"
| "js_length (Obj kvs) = (case map_of kvs ''length'' of Some v \<Rightarrow> v | None \<Rightarrow> Undefined)"
| "js_length v = Undefined"

fun js_first :: "jsval \<Rightarrow> jsval" where
  "js_first (Arr xs) = (case xs of [] \<Rightarrow> Undefined | x # ys \<Rightarrow> x)"
| "js_first (Str s) = (case s of [] \<Rightarrow> Undefined | c # cs \<Rightarrow> Str [c])"
| "js_first (Obj kvs) = (case map_of kvs ''0'' of Some v \<Rightarrow> v | None \<Rightarrow> Undefined)"
| "js_first v = Undefined"

text \<open>
  \<^verbatim>\<open>o[k] = v\<close> on a plain object: an existing key keeps its place, a new key goes last.
\<close>

fun set_key :: "string \<Rightarrow> jsval \<Rightarrow> (string \<times> jsval) list \<Rightarrow> (string \<times> jsval) list" where
  "set_key k v [] = [(k, v)]"
| "set_key k v (p # ps) = (if fst p = k then (k, v) # ps else p # set_key k v ps)"

text \<open>
  The assignment \<^verbatim>\<open>options.k = v\<close>: a \<^verbatim>\<open>TypeError\<close> (\<open>None\<close>) on
  \<^verbatim>\<open>undefined\<close> and \<^verbatim>\<open>null\<close>, the updated object on a plain object. On a
  primitive the write is dropped (sloppy mode); arrays, errors and handles with extra
  properties are outside the value model and are left as they are.
\<close>

fun assign :: "jsval \<Rightarrow> string \<Rightarrow> jsval \<Rightarrow> jsval option" where
  "assign Undefined k v = None"
| "assign Null k v = None"
| "assign (Obj kvs) k v = Some (Obj (set_key k v kvs))"
| "assign x k v = Some x"

text \<open>Reading a property of a plain object.\<close>

fun get_key :: "jsval \<Rightarrow> string \<Rightarrow> jsval" where
  "get_key (Obj kvs) k = (case map_of kvs k of Some v \<Rightarrow> v | None \<Rightarrow> Undefined)"
| "get_key x k = Undefined"


section \<open>The world: provider instance, driver, scheduler\<close>

text \<open>
  A function either returns or throws; the value a callback returns is never used by the
  provider.
\<close>

datatype completion = Normal | Throw jsval

text \<open>
  What can be observed of a run: the calls issued to the driver (method name and the
  arguments other than the callback), the driver firing a completion callback with its
  arguments, an exception that escaped a completion callback into the driver's call stack,
  the caller's callback being invoked with its arguments, and an exception left uncaught
  at the top of a later scheduling turn.
\<close>

datatype event =
    DriverCall string "jsval list"
  | DriverReply "jsval list"
  | DriverObserved jsval
  | Invoke "jsval list"
  | Uncaught jsval

text \<open>
  An argument supplied by the caller: a value, or a function. Of a caller's function the
  model keeps whether it returns or throws on given arguments; its invocation is an event.
\<close>

datatype arg = Val jsval | Fn "jsval list \<Rightarrow> completion"

text \<open>What \<^verbatim>\<open>process.nextTick\<close> has queued: a rethrow, or a caller's callback.\<close>

datatype task = Rethrow jsval | Run "jsval list \<Rightarrow> completion"

text \<open>
  The instance fields: \<^verbatim>\<open>this.collection\<close> and \<^verbatim>\<open>this.indexes\<close>, a list of
  \<^verbatim>\<open>[keyPattern, options]\<close> pairs or \<^verbatim>\<open>null\<close> (\<open>None\<close>), the prototype's default.
\<close>

record provider =
  this_collection :: jsval
  this_indexes :: "(jsval \<times> jsval) list option"

text \<open>
  The driver is an external collaborator; \<open>replies\<close> holds, in order, the arguments with
  which it will fire the completion callbacks of the calls to come. When none is left the
  driver never calls back.
\<close>

record world =
  self :: provider
  trace :: "event list"
  next_tick :: "task list"
  replies :: "jsval list list"

definition emit :: "event \<Rightarrow> world \<Rightarrow> world" where
  "emit e w = w\<lparr>trace := trace w @ [e]\<rparr>"

definition nextTick :: "task \<Rightarrow> world \<Rightarrow> world" where
  "nextTick t w = w\<lparr>next_tick := next_tick w @ [t]\<rparr>"

text \<open>
  A function value inside the library: receiver, arguments and world in, completion and
  world out. \<open>NonFun v\<close> is a value whose \<^verbatim>\<open>typeof\<close> is not \<^verbatim>\<open>'function'\<close>.
\<close>

datatype callable =
    NonFun jsval
  | Fun "jsval \<Rightarrow> jsval list \<Rightarrow> world \<Rightarrow> completion \<times> world"

definition type_error :: jsval where
  "type_error = TypeError ''TypeError''"

text \<open>A plain call \<^verbatim>\<open>f(a, b)\<close>: the receiver is \<^verbatim>\<open>undefined\<close>.\<close>

fun call :: "callable \<Rightarrow> jsval list \<Rightarrow> world \<Rightarrow> completion \<times> world" where
  "call (Fun f) args w = f Undefined args w"
| "call (NonFun v) args w = (Throw type_error, w)"

fun callable_of :: "arg \<Rightarrow> callable" where
  "callable_of (Val v) = NonFun v"
| "callable_of (Fn f) = Fun (\<lambda>this args w. (f args, emit (Invoke args) w))"

fun truthy_arg :: "arg \<Rightarrow> bool" where
  "truthy_arg (Val v) = truthy v"
| "truthy_arg (Fn f) = True"

text \<open>\<^verbatim>\<open>process.nextTick(callback)\<close> with a caller's argument.\<close>

fun process_nextTick :: "arg \<Rightarrow> world \<Rightarrow> completion \<times> world" where
  "process_nextTick (Fn f) w = (Normal, nextTick (Run f) w)"
| "process_nextTick (Val v) w = (Throw type_error, w)"

text \<open>
  A later scheduling turn runs what was queued: a rethrow surfaces uncaught, a queued
  callback is invoked without arguments.
\<close>

fun run_task :: "task \<Rightarrow> world \<Rightarrow> world" where
  "run_task (Rethrow e) w = emit (Uncaught e) w"
| "run_task (Run f) w =
     (case f [] of
        Normal \<Rightarrow> emit (Invoke []) w
      | Throw e \<Rightarrow> emit (Uncaught e) (emit (Invoke []) w))"

definition next_turn :: "world \<Rightarrow> world" where
  "next_turn w = fold run_task (next_tick w) (w\<lparr>next_tick := []\<rparr>)"


section \<open>utils.js\<close>

text \<open>
  \<^verbatim>\<open>
  exports.tick = function tick (callback) {
    if ('function' !== typeof callback) return;
    return function () {
      try {
        callback.apply(this, arguments);
      } catch (err) {
        process.nextTick(function () { throw err; });
      }
    }
  };
  \<close>
\<close>

definition tick :: "callable \<Rightarrow> callable" where
  "tick callback =
     (case callback of
        NonFun v \<Rightarrow> NonFun Undefined
      | Fun f \<Rightarrow>
          Fun (\<lambda>this arguments w.
            case f this arguments w of
              (Normal, w') \<Rightarrow> (Normal, w')
            | (Throw err, w') \<Rightarrow> (Normal, nextTick (Rethrow err) w')))"

text \<open>
  The two utils modules under src/ both export \<^verbatim>\<open>tick\<close>, with the same text; the
  later one also exports \<^verbatim>\<open>toObjectID\<close>. Neither exports anything else.
\<close>

definition utils_exports_lib :: "string list" where
  "utils_exports_lib = [''tick'']"

definition utils_exports :: "string list" where
  "utils_exports = [''tick'', ''toObjectID'']"


section \<open>The driver\<close>

text \<open>
  The driver fires a completion callback from its own call stack: an exception that
  escapes the callback is observed there. A driver that was given no function has nothing
  to fire. In the model the completion of a call follows the call directly; the provider
  does nothing between issuing a call and its completion.
\<close>

fun deliver :: "callable \<Rightarrow> jsval list \<Rightarrow> world \<Rightarrow> completion \<times> world" where
  "deliver (NonFun v) r w = (Normal, w)"
| "deliver (Fun f) r w =
     (case f Undefined r w of
        (Normal, w') \<Rightarrow> (Normal, w')
      | (Throw e, w') \<Rightarrow> (Normal, emit (DriverObserved e) w'))"

definition driver_call :: "string \<Rightarrow> jsval list \<Rightarrow> callable \<Rightarrow> world \<Rightarrow> completion \<times> world" where
  "driver_call name args k w =
     (let w1 = emit (DriverCall name args) w in
      case replies w1 of
        [] \<Rightarrow> (Normal, w1)
      | r # rs \<Rightarrow> deliver k r (emit (DriverReply r) (w1\<lparr>replies := rs\<rparr>)))"

text \<open>\<^verbatim>\<open>db.collection(name, options, callback)\<close>.\<close>

definition db_collection :: "jsval \<Rightarrow> jsval \<Rightarrow> callable \<Rightarrow> world \<Rightarrow> completion \<times> world" where
  "db_collection name options k w = driver_call ''collection'' [name, options] k w"

text \<open>
  \<^verbatim>\<open>collection.method(args, callback)\<close>: a \<^verbatim>\<open>TypeError\<close> unless \<^verbatim>\<open>collection\<close> is
  a collection handle.
\<close>

fun coll_method :: "jsval \<Rightarrow> string \<Rightarrow> jsval list \<Rightarrow> callable \<Rightarrow> world \<Rightarrow> completion \<times> world" where
  "coll_method (Handle n) name args k w = driver_call name args k w"
| "coll_method c name args k w = (Throw type_error, w)"

text \<open>\<^verbatim>\<open>collection.find(args).toArray(callback)\<close>: the cursor is made at once, only
  \<^verbatim>\<open>toArray\<close> completes through a callback.\<close>

fun find_toArray :: "jsval \<Rightarrow> jsval list \<Rightarrow> callable \<Rightarrow> world \<Rightarrow> completion \<times> world" where
  "find_toArray (Handle n) args k w = driver_call ''toArray'' [] k (emit (DriverCall ''find'' args) w)"
| "find_toArray c args k w = (Throw type_error, w)"


section \<open>The provider (latest variant)\<close>

subsection \<open>Error messages\<close>

text \<open>
  The messages are Russian text; each constant holds the UTF-8 bytes of the source literal.
\<close>

text \<open>In English: "could not find the document: "\<close>

definition msg_findOne :: string where
  "msg_findOne = map char_of
     [208, 157, 208, 181, 32, 209, 131, 208, 180, 208, 176, 208, 187, 208, 190, 209, 129, 209, 140, 32,
      208, 189, 208, 176, 208, 185, 209, 130, 208, 184, 32, 208, 180, 208, 190, 208, 186, 209, 131, 208,
      188, 208, 181, 208, 189, 209, 130, 58, 32 :: nat]"

text \<open>In English: "could not create the documents: "\<close>

definition msg_create :: string where
  "msg_create = map char_of
     [208, 157, 208, 181, 32, 209, 131, 208, 180, 208, 176, 208, 187, 208, 190, 209, 129, 209, 140, 32,
      209, 129, 208, 190, 208, 183, 208, 180, 208, 176, 209, 130, 209, 140, 32, 208, 180, 208, 190, 208,
      186, 209, 131, 208, 188, 208, 181, 208, 189, 209, 130, 209, 139, 58, 32 :: nat]"

text \<open>In English: "could not create the document: "\<close>

definition msg_createOne :: string where
  "msg_createOne = map char_of
     [208, 157, 208, 181, 32, 209, 131, 208, 180, 208, 176, 208, 187, 208, 190, 209, 129, 209, 140, 32,
      209, 129, 208, 190, 208, 183, 208, 180, 208, 176, 209, 130, 209, 140, 32, 208, 180, 208, 190, 208,
      186, 209, 131, 208, 188, 208, 181, 208, 189, 209, 130, 58, 32 :: nat]"

text \<open>In English: "could not update the documents: "\<close>

definition msg_update :: string where
  "msg_update = map char_of
     [208, 157, 208, 181, 32, 209, 131, 208, 180, 208, 176, 208, 187, 208, 190, 209, 129, 209, 140, 32,
      208, 190, 208, 177, 208, 189, 208, 190, 208, 178, 208, 184, 209, 130, 209, 140, 32, 208, 180, 208,
      190, 208, 186, 209, 131, 208, 188, 208, 181, 208, 189, 209, 130, 209, 139, 58, 32 :: nat]"

text \<open>In English: "could not update the document: "\<close>

definition msg_updateOne :: string where
  "msg_updateOne = map char_of
     [208, 157, 208, 181, 32, 209, 131, 208, 180, 208, 176, 208, 187, 208, 190, 209, 129, 209, 140, 32,
      208, 190, 208, 177, 208, 189, 208, 190, 208, 178, 208, 184, 209, 130, 209, 140, 32, 208, 180, 208,
      190, 208, 186, 209, 131, 208, 188, 208, 181, 208, 189, 209, 130, 58, 32 :: nat]"

text \<open>In English: "could not find and update the document: "\<close>

definition msg_findAndUpdate :: string where
  "msg_findAndUpdate = map char_of
     [208, 157, 208, 181, 32, 209, 131, 208, 180, 208, 176, 208, 187, 208, 190, 209, 129, 209, 140, 32,
      208, 189, 208, 176, 208, 185, 209, 130, 208, 184, 32, 208, 184, 32, 208, 190, 208, 177, 208, 189,
      208, 190, 208, 178, 208, 184, 209, 130, 209, 140, 32, 208, 180, 208, 190, 208, 186, 209, 131, 208,
      188, 208, 181, 208, 189, 209, 130, 58, 32 :: nat]"

text \<open>In English: "could not remove the documents: "\<close>

definition msg_remove :: string where
  "msg_remove = map char_of
     [208, 157, 208, 181, 32, 209, 131, 208, 180, 208, 176, 208, 187, 208, 190, 209, 129, 209, 140, 32,
      209, 131, 208, 180, 208, 176, 208, 187, 208, 184, 209, 130, 209, 140, 32, 208, 180, 208, 190, 208,
      186, 209, 131, 208, 188, 208, 181, 208, 189, 209, 130, 209, 139, 58, 32 :: nat]"

text \<open>In English: "could not find and remove the document:"\<close>

definition msg_findAndRemove :: string where
  "msg_findAndRemove = map char_of
     [208, 157, 208, 181, 32, 209, 131, 208, 180, 208, 176, 208, 187, 208, 190, 209, 129, 209, 140, 32,
      208, 189, 208, 176, 208, 185, 209, 130, 208, 184, 32, 208, 184, 32, 209, 131, 208, 180, 208, 176,
      208, 187, 208, 184, 209, 130, 209, 140, 32, 208, 180, 208, 190, 208, 186, 209, 131, 208, 188, 208,
      181, 208, 189, 209, 130, 58 :: nat]"

subsection \<open>Collection acquisition\<close>

text \<open>A function literal \<^verbatim>\<open>function (err, x) { ... }\<close>.\<close>

definition handler :: "(jsval \<Rightarrow> jsval \<Rightarrow> world \<Rightarrow> completion \<times> world) \<Rightarrow> callable" where
  "handler body = Fun (\<lambda>this args. body (arg_at args 0) (arg_at args 1))"

text \<open>
  \<^verbatim>\<open>this.db.collection(this.collection, {w: 1, strict: true}, tick(callback));\<close>
\<close>

definition getCollection :: "callable \<Rightarrow> world \<Rightarrow> completion \<times> world" where
  "getCollection callback w =
     db_collection (this_collection (self w)) (Obj [(''w'', Num 1), (''strict'', Bool True)])
       (tick callback) w"

subsection \<open>Read operations\<close>

text \<open>
  \<^verbatim>\<open>JSON.stringify\<close> belongs to the platform, not to the repository: the parameter
  \<open>JSON_stringify\<close> of an operation gives, for a value \<open>v\<close>, the text that
  \<^verbatim>\<open>'' + JSON.stringify(v)\<close> evaluates to.
\<close>

definition find_op :: "jsval \<Rightarrow> arg \<Rightarrow> arg \<Rightarrow> arg \<Rightarrow> world \<Rightarrow> completion \<times> world" where
  "find_op conditions projection0 options0 callback0 w =
     (let (projection, options1, callback1) =
            (case projection0 of
               Fn f \<Rightarrow> (Obj [], Val (Obj []), projection0)
             | Val v \<Rightarrow> (v, options0, callback0));
          (options, callback) =
            (case options1 of
               Fn f \<Rightarrow> (Obj [], options1)
             | Val v \<Rightarrow> (v, callback1))
      in getCollection (handler (\<lambda>err collection.
           if truthy err then call (callable_of callback) [err]
           else find_toArray collection [conditions, projection, options]
                  (tick (handler (\<lambda>err result.
                     if truthy err then call (callable_of callback) [err]
                     else call (callable_of callback) [Null, result]))))) w)"

definition findOne :: "(jsval \<Rightarrow> string) \<Rightarrow> jsval \<Rightarrow> arg \<Rightarrow> arg \<Rightarrow> world \<Rightarrow> completion \<times> world" where
  "findOne JSON_stringify conditions projection0 callback0 w =
     (let (projection, callback) =
            (case projection0 of
               Fn f \<Rightarrow> (Obj [], projection0)
             | Val v \<Rightarrow> (v, callback0))
      in getCollection (handler (\<lambda>err collection.
           if truthy err then call (callable_of callback) [err]
           else coll_method collection ''findOne'' [conditions, projection]
                  (tick (handler (\<lambda>err doc.
                     if truthy err then call (callable_of callback) [err]
                     else if \<not> truthy doc
                       then call (callable_of callback)
                              [Error (msg_findOne @ JSON_stringify conditions)]
                     else call (callable_of callback) [Null, doc]))))) w)"

definition findOnly :: "jsval \<Rightarrow> arg \<Rightarrow> arg \<Rightarrow> world \<Rightarrow> completion \<times> world" where
  "findOnly conditions projection0 callback0 w =
     (let (projection, callback) =
            (case projection0 of
               Fn f \<Rightarrow> (Obj [], projection0)
             | Val v \<Rightarrow> (v, callback0))
      in getCollection (handler (\<lambda>err collection.
           if truthy err then call (callable_of callback) [err]
           else coll_method collection ''findOne'' [conditions, projection]
                  (tick (handler (\<lambda>err doc.
                     if truthy err then call (callable_of callback) [err]
                     else call (callable_of callback) [Null, doc]))))) w)"

text \<open>\<^verbatim>\<open>return collection.aggregate(pipeline, options, callback);\<close>: the caller's
  callback goes to the driver as it is.\<close>

definition aggregate :: "jsval \<Rightarrow> arg \<Rightarrow> arg \<Rightarrow> world \<Rightarrow> completion \<times> world" where
  "aggregate pipeline options0 callback0 w =
     (let (options, callback) =
            (case options0 of
               Fn f \<Rightarrow> (Obj [], options0)
             | Val v \<Rightarrow> (v, callback0))
      in getCollection (handler (\<lambda>err collection.
           if truthy err then call (callable_of callback) [err]
           else coll_method collection ''aggregate'' [pipeline, options] (callable_of callback))) w)"

definition count :: "jsval \<Rightarrow> arg \<Rightarrow> world \<Rightarrow> completion \<times> world" where
  "count conditions callback w =
     getCollection (handler (\<lambda>err collection.
       if truthy err then call (callable_of callback) [err]
       else coll_method collection ''count'' [conditions]
              (handler (\<lambda>err count.
                 if truthy err then call (callable_of callback) [err]
                 else call (callable_of callback) [Null, count])))) w"

subsection \<open>Write operations\<close>

text \<open>\<^verbatim>\<open>!result || !result.length\<close>: the length is read only of a truthy result.\<close>

definition none_inserted :: "jsval \<Rightarrow> bool" where
  "none_inserted result = (if truthy result then \<not> truthy (js_length result) else True)"

definition create :: "(jsval \<Rightarrow> string) \<Rightarrow> jsval \<Rightarrow> arg \<Rightarrow> world \<Rightarrow> completion \<times> world" where
  "create JSON_stringify docs callback w =
     getCollection (handler (\<lambda>err collection.
       if truthy err then call (callable_of callback) [err]
       else coll_method collection ''insert'' [docs, Obj [(''w'', Num 1)]]
              (tick (handler (\<lambda>err result.
                 if truthy err then call (callable_of callback) [err]
                 else if none_inserted result
                   then call (callable_of callback)
                          [Error (msg_create @ JSON_stringify docs)]
                 else call (callable_of callback) [Null, result]))))) w"

definition createOne :: "(jsval \<Rightarrow> string) \<Rightarrow> jsval \<Rightarrow> arg \<Rightarrow> world \<Rightarrow> completion \<times> world" where
  "createOne JSON_stringify doc callback w =
     getCollection (handler (\<lambda>err collection.
       if truthy err then call (callable_of callback) [err]
       else coll_method collection ''insert'' [doc, Obj [(''w'', Num 1)]]
              (tick (handler (\<lambda>err result.
                 if truthy err then call (callable_of callback) [err]
                 else if none_inserted result
                   then call (callable_of callback)
                          [Error (msg_createOne @ JSON_stringify doc)]
                 else call (callable_of callback) [Null, js_first result]))))) w"

definition update :: "(jsval \<Rightarrow> string) \<Rightarrow> jsval \<Rightarrow> jsval \<Rightarrow> arg \<Rightarrow> world \<Rightarrow> completion \<times> world" where
  "update JSON_stringify conditions upd callback w =
     getCollection (handler (\<lambda>err collection.
       if truthy err then call (callable_of callback) [err]
       else coll_method collection ''update''
              [conditions, upd, Obj [(''w'', Num 1), (''multi'', Bool True)]]
              (tick (handler (\<lambda>err numAffected.
                 if truthy err then call (callable_of callback) [err]
                 else if \<not> truthy numAffected
                   then call (callable_of callback)
                          [Error (msg_update @ JSON_stringify conditions)]
                 else call (callable_of callback) [Null]))))) w"

text \<open>
  \<^verbatim>\<open>
  return collection.update(conditions, update, utils.extend({w: 1}, options), tick(...));
  \<close>
  \<^verbatim>\<open>utils.extend\<close> is defined in neither utils module under src/ (see
  \<open>utils_exports\<close>): its value is the first parameter of the operation, \<open>None\<close> when
  the property is \<^verbatim>\<open>undefined\<close>. The arguments of the driver call are evaluated before
  the call: calling \<^verbatim>\<open>undefined\<close> throws a \<^verbatim>\<open>TypeError\<close> and the driver is not
  entered.
\<close>

definition updateOne ::
  "(jsval \<Rightarrow> jsval \<Rightarrow> jsval) option \<Rightarrow> (jsval \<Rightarrow> string) \<Rightarrow> jsval \<Rightarrow> jsval \<Rightarrow> arg \<Rightarrow> arg
     \<Rightarrow> world \<Rightarrow> completion \<times> world" where
  "updateOne extend_fn JSON_stringify conditions upd options0 callback0 w =
     (let (options, callback) =
            (case options0 of
               Fn f \<Rightarrow> (Obj [], options0)
             | Val v \<Rightarrow> (v, callback0))
      in getCollection (handler (\<lambda>err collection.
           if truthy err then call (callable_of callback) [err]
           else (case extend_fn of
                   None \<Rightarrow> (\<lambda>w'. (Throw type_error, w'))
                 | Some ext \<Rightarrow>
                     coll_method collection ''update''
                       [conditions, upd, ext (Obj [(''w'', Num 1)]) options]
                       (tick (handler (\<lambda>err numAffected.
                          if truthy err then call (callable_of callback) [err]
                          else if \<not> truthy numAffected
                            then call (callable_of callback)
                                   [Error (msg_updateOne @ JSON_stringify conditions)]
                          else call (callable_of callback) [Null])))))) w)"

definition findAndUpdate :: "(jsval \<Rightarrow> string) \<Rightarrow> jsval \<Rightarrow> jsval \<Rightarrow> arg \<Rightarrow> world \<Rightarrow> completion \<times> world" where
  "findAndUpdate JSON_stringify conditions upd callback w =
     getCollection (handler (\<lambda>err collection.
       if truthy err then call (callable_of callback) [err]
       else coll_method collection ''findAndModify''
              [conditions, Arr [], upd, Obj [(''new'', Bool True), (''w'', Num 1)]]
              (tick (handler (\<lambda>err doc.
                 if truthy err then call (callable_of callback) [err]
                 else if \<not> truthy doc
                   then call (callable_of callback)
                          [Error (msg_findAndUpdate @ JSON_stringify conditions)]
                 else call (callable_of callback) [Null, doc]))))) w"

definition remove_op :: "(jsval \<Rightarrow> string) \<Rightarrow> jsval \<Rightarrow> arg \<Rightarrow> world \<Rightarrow> completion \<times> world" where
  "remove_op JSON_stringify conditions callback w =
     getCollection (handler (\<lambda>err collection.
       if truthy err then call (callable_of callback) [err]
       else coll_method collection ''remove'' [conditions, Obj [(''w'', Num 1)]]
              (tick (handler (\<lambda>err numRemoved.
                 if truthy err then call (callable_of callback) [err]
                 else if \<not> truthy numRemoved
                   then call (callable_of callback)
                          [Error (msg_remove @ JSON_stringify conditions)]
                 else call (callable_of callback) [Null]))))) w"

definition removeOnly :: "jsval \<Rightarrow> arg \<Rightarrow> world \<Rightarrow> completion \<times> world" where
  "removeOnly conditions callback w =
     getCollection (handler (\<lambda>err collection.
       if truthy err then call (callable_of callback) [err]
       else coll_method collection ''remove'' [conditions, Obj [(''w'', Num 1)]]
              (tick (handler (\<lambda>err numRemoved.
                 if truthy err then call (callable_of callback) [err]
                 else call (callable_of callback) [Null, numRemoved]))))) w"

definition findAndRemove :: "(jsval \<Rightarrow> string) \<Rightarrow> jsval \<Rightarrow> arg \<Rightarrow> world \<Rightarrow> completion \<times> world" where
  "findAndRemove JSON_stringify conditions callback w =
     getCollection (handler (\<lambda>err collection.
       if truthy err then call (callable_of callback) [err]
       else coll_method collection ''findAndRemove'' [conditions, Arr [], Obj [(''w'', Num 1)]]
              (handler (\<lambda>err doc.
                 if truthy err then call (callable_of callback) [err]
                 else if \<not> truthy doc
                   then call (callable_of callback)
                          [Error (msg_findAndRemove @ JSON_stringify conditions)]
                 else call (callable_of callback) [Null, doc])))) w"


section \<open>Index ensuring (the variant that declares indexes)\<close>

text \<open>\<^verbatim>\<open>function done (err) { callback && callback(err); }\<close>\<close>

definition done_cb :: "arg \<Rightarrow> jsval \<Rightarrow> world \<Rightarrow> completion \<times> world" where
  "done_cb callback err w =
     (if truthy_arg callback then call (callable_of callback) [err] w else (Normal, w))"

text \<open>
  \<^verbatim>\<open>
  function create () {
    var index = indexes.shift();
    if (!index) return done();
    var options = index[1];
    options.w = 1;
    options.background = true;
    return collection.ensureIndex(index[0], options, tick(function (err) {
      if (err) return done(err);
      create();
    }));
  }
  \<close>
  The local \<^verbatim>\<open>indexes\<close> is the array \<^verbatim>\<open>this.indexes\<close> itself, not a copy: the
  list argument is its current content, and every \<^verbatim>\<open>shift\<close> is written through to
  the instance.
\<close>

fun create_index :: "arg \<Rightarrow> jsval \<Rightarrow> (jsval \<times> jsval) list \<Rightarrow> world \<Rightarrow> completion \<times> world" where
  "create_index callback collection [] w = done_cb callback Undefined w"
| "create_index callback collection (index # rest) w =
     (let w1 = w\<lparr>self := (self w)\<lparr>this_indexes := Some rest\<rparr>\<rparr> in
      case assign (snd index) ''w'' (Num 1) of
        None \<Rightarrow> (Throw type_error, w1)
      | Some options1 \<Rightarrow>
          (case assign options1 ''background'' (Bool True) of
             None \<Rightarrow> (Throw type_error, w1)
           | Some options \<Rightarrow>
               coll_method collection ''ensureIndex'' [fst index, options]
                 (tick (Fun (\<lambda>this args w2.
                    if truthy (arg_at args 0) then done_cb callback (arg_at args 0) w2
                    else create_index callback collection rest w2))) w1))"

text \<open>
  \<^verbatim>\<open>
  var indexes = Array.isArray(this.indexes) ? this.indexes : [];
  if (!indexes.length) {
    return callback && process.nextTick(callback);
  }
  \<close>
\<close>

definition ensureIndexes :: "arg \<Rightarrow> world \<Rightarrow> completion \<times> world" where
  "ensureIndexes callback w =
     (let indexes = (case this_indexes (self w) of Some xs \<Rightarrow> xs | None \<Rightarrow> []) in
      if indexes = [] then
        (if truthy_arg callback then process_nextTick callback w else (Normal, w))
      else
        getCollection (handler (\<lambda>err collection.
          if truthy err then done_cb callback err
          else create_index callback collection indexes)) w)"


section \<open>The oldest variant (src/lib/index.js)\<close>

text \<open>
  The comment in the source is in Russian; it says "get the collection in strict mode".
  \<^verbatim>\<open>
  this.db.collection(this.collection, {w: 1}, callback);
  \<close>
\<close>

definition getCollection_lib :: "callable \<Rightarrow> world \<Rightarrow> completion \<times> world" where
  "getCollection_lib callback w =
     db_collection (this_collection (self w)) (Obj [(''w'', Num 1)]) callback w"

definition find_lib :: "jsval \<Rightarrow> arg \<Rightarrow> world \<Rightarrow> completion \<times> world" where
  "find_lib conditions callback w =
     getCollection_lib (handler (\<lambda>err collection.
       if truthy err then call (callable_of callback) [err]
       else find_toArray collection [conditions]
              (handler (\<lambda>err result.
                 if truthy err then call (callable_of callback) [err]
                 else call (callable_of callback) [Null, result])))) w"


section \<open>Calls to the public operations\<close>

text \<open>
  One call of a public operation of the latest variant, with the arguments as the caller
  passes them; \<open>EnsureIndexes\<close> is the operation of the variant that declares indexes.
  \<open>perform\<close> takes the value of \<^verbatim>\<open>utils.extend\<close> and \<^verbatim>\<open>JSON.stringify\<close>.
\<close>

datatype request =
    Find jsval arg arg arg
  | FindOne jsval arg arg
  | FindOnly jsval arg arg
  | Aggregate jsval arg arg
  | Count jsval arg
  | Create jsval arg
  | CreateOne jsval arg
  | Update jsval jsval arg
  | UpdateOne jsval jsval arg arg
  | FindAndUpdate jsval jsval arg
  | Remove jsval arg
  | RemoveOnly jsval arg
  | FindAndRemove jsval arg
  | EnsureIndexes arg

fun perform ::
  "(jsval \<Rightarrow> jsval \<Rightarrow> jsval) option \<Rightarrow> (jsval \<Rightarrow> string) \<Rightarrow> request \<Rightarrow> world \<Rightarrow> completion \<times> world" where
  "perform X J (Find c p opts cb) w = find_op c p opts cb w"
| "perform X J (FindOne c p cb) w = findOne J c p cb w"
| "perform X J (FindOnly c p cb) w = findOnly c p cb w"
| "perform X J (Aggregate pl opts cb) w = aggregate pl opts cb w"
| "perform X J (Count c cb) w = count c cb w"
| "perform X J (Create docs cb) w = create J docs cb w"
| "perform X J (CreateOne doc cb) w = createOne J doc cb w"
| "perform X J (Update c u cb) w = update J c u cb w"
| "perform X J (UpdateOne c u opts cb) w = updateOne X J c u opts cb w"
| "perform X J (FindAndUpdate c u cb) w = findAndUpdate J c u cb w"
| "perform X J (Remove c cb) w = remove_op J c cb w"
| "perform X J (RemoveOnly c cb) w = removeOnly c cb w"
| "perform X J (FindAndRemove c cb) w = findAndRemove J c cb w"
| "perform X J (EnsureIndexes cb) w = ensureIndexes cb w"

text \<open>
  The argument that ends up as \<^verbatim>\<open>callback\<close> once the optional arguments are sorted
  out (\<^verbatim>\<open>if (typeof projection === 'function') { callback = projection; ... }\<close>).
\<close>

fun shift1 :: "arg \<Rightarrow> arg \<Rightarrow> arg" where
  "shift1 (Fn f) cb = Fn f"
| "shift1 (Val v) cb = cb"

fun callback_of :: "request \<Rightarrow> arg" where
  "callback_of (Find c p opts cb) = shift1 p (shift1 opts cb)"
| "callback_of (FindOne c p cb) = shift1 p cb"
| "callback_of (FindOnly c p cb) = shift1 p cb"
| "callback_of (Aggregate pl opts cb) = shift1 opts cb"
| "callback_of (Count c cb) = cb"
| "callback_of (Create docs cb) = cb"
| "callback_of (CreateOne doc cb) = cb"
| "callback_of (Update c u cb) = cb"
| "callback_of (UpdateOne c u opts cb) = shift1 opts cb"
| "callback_of (FindAndUpdate c u cb) = cb"
| "callback_of (Remove c cb) = cb"
| "callback_of (RemoveOnly c cb) = cb"
| "callback_of (FindAndRemove c cb) = cb"
| "callback_of (EnsureIndexes cb) = cb"

text \<open>The operations whose completion handler is built by the provider and reaches the
  driver wrapped in \<open>tick\<close>.\<close>

fun ticked :: "request \<Rightarrow> bool" where
  "ticked (Aggregate pl opts cb) = False"
| "ticked (Count c cb) = False"
| "ticked (FindAndRemove c cb) = False"
| "ticked r = True"


section \<open>Reading a run\<close>

text \<open>The argument lists with which the caller's callback was invoked, in order.\<close>

fun invocations :: "event list \<Rightarrow> jsval list list" where
  "invocations [] = []"
| "invocations (Invoke args # es) = args # invocations es"
| "invocations (e # es) = invocations es"

text \<open>The exceptions the driver saw escaping from a completion callback.\<close>

fun observed :: "event list \<Rightarrow> jsval list" where
  "observed [] = []"
| "observed (DriverObserved e # es) = e # observed es"
| "observed (e # es) = observed es"

text \<open>The calls issued to the driver.\<close>

fun driver_calls :: "event list \<Rightarrow> event list" where
  "driver_calls [] = []"
| "driver_calls (DriverCall m args # es) = DriverCall m args # driver_calls es"
| "driver_calls (e # es) = driver_calls es"

text \<open>The request for the collection handle, with strict-existence validation.\<close>

definition strict_acquisition :: "world \<Rightarrow> event" where
  "strict_acquisition w =
     DriverCall ''collection''
       [this_collection (self w), Obj [(''w'', Num 1), (''strict'', Bool True)]]"

fun is_handle :: "jsval \<Rightarrow> bool" where
  "is_handle (Handle n) = True"
| "is_handle v = False"

fun is_obj :: "jsval \<Rightarrow> bool" where
  "is_obj (Obj kvs) = True"
| "is_obj v = False"

text \<open>The driver's answer to the acquisition: no error and a collection handle.\<close>

definition acquired :: "jsval list \<Rightarrow> bool" where
  "acquired a = (\<not> truthy (arg_at a 0) \<and> is_handle (arg_at a 1))"

text \<open>Index options with acknowledgement and background build forced on.\<close>

fun forced :: "jsval \<Rightarrow> jsval" where
  "forced (Obj kvs) = Obj (set_key ''background'' (Bool True) (set_key ''w'' (Num 1) kvs))"
| "forced v = v"


text \<open>
  The result envelope in the words of the specification: the callback receives an error
  when its first argument is truthy, a result when it is passed a second argument (which
  may be \<^verbatim>\<open>null\<close>).
\<close>

definition receives_error :: "jsval list \<Rightarrow> bool" where
  "receives_error args = truthy (arg_at args 0)"

definition receives_result :: "jsval list \<Rightarrow> bool" where
  "receives_result args = (1 < length args \<and> arg_at args 1 \<noteq> Undefined)"

text \<open>
  The envelope the operations keep: an error comes alone; otherwise the error slot is
  \<^verbatim>\<open>null\<close> or absent, followed by at most one result.
\<close>

definition error_alone :: "jsval list \<Rightarrow> bool" where
  "error_alone args = (truthy (arg_at args 0) \<and> length args = 1)"

definition no_error :: "jsval list \<Rightarrow> bool" where
  "no_error args = ((arg_at args 0 = Null \<or> arg_at args 0 = Undefined) \<and> length args \<le> 2)"

text \<open>
  The operations whose completion arguments the provider builds itself; \<open>aggregate\<close>
  hands the caller's callback to the driver, and \<open>updateOne\<close> and \<open>ensureIndexes\<close> are
  looked at on their own.
\<close>

fun normalized :: "request \<Rightarrow> bool" where
  "normalized (Aggregate pl opts cb) = False"
| "normalized (UpdateOne c u opts cb) = False"
| "normalized (EnsureIndexes cb) = False"
| "normalized r = True"

text \<open>
  The driver plays its part: it answers the acquisition with an error or with a collection
  handle, and it completes \<open>n\<close> further calls.
\<close>

definition answered :: "world \<Rightarrow> nat \<Rightarrow> bool" where
  "answered w n =
     (n < length (replies w) \<and>
      (truthy (arg_at (hd (replies w)) 0) \<or> is_handle (arg_at (hd (replies w)) 1)))"

text \<open>\<^verbatim>\<open>Array.isArray(this.indexes) ? this.indexes : []\<close>\<close>

definition declared :: "world \<Rightarrow> (jsval \<times> jsval) list" where
  "declared w = (case this_indexes (self w) of Some xs \<Rightarrow> xs | None \<Rightarrow> [])"

text \<open>
  Modelled from the spec: \<^verbatim>\<open>utils.extend\<close> is called by \<^verbatim>\<open>updateOne\<close> but defined
  in neither utils module; the specification describes "caller-supplied options merged over
  a default of write-acknowledgement". The entries of the second object are written over
  those of the first.
\<close>

fun extend_merge :: "jsval \<Rightarrow> jsval \<Rightarrow> jsval" where
  "extend_merge (Obj d) (Obj kvs) = Obj (fold (\<lambda>p. set_key (fst p) (snd p)) kvs d)"
| "extend_merge d v = d"


section \<open>Concrete runs\<close>

text \<open>A fresh run: the instance, and the answers the driver is going to give.\<close>

definition fresh :: "provider \<Rightarrow> jsval list list \<Rightarrow> world" where
  "fresh p rs = \<lparr>self = p, trace = [], next_tick = [], replies = rs\<rparr>"

definition users :: provider where
  "users = \<lparr>this_collection = Str ''users'', this_indexes = None\<rparr>"

text \<open>A provider declaring two indexes, \<^verbatim>\<open>[[{email: 1}, {unique: true}], [{age: 1}, {}]]\<close>.\<close>

definition indexed_users :: provider where
  "indexed_users =
     \<lparr>this_collection = Str ''users'',
      this_indexes = Some [(Obj [(''email'', Num 1)], Obj [(''unique'', Bool True)]),
                           (Obj [(''age'', Num 1)], Obj [])]\<rparr>"

definition granted :: "jsval list" where
  "granted = [Null, Handle (Str ''users'')]"

text \<open>A callback that returns, and one that throws.\<close>

definition quiet :: "jsval list \<Rightarrow> completion" where
  "quiet args = Normal"

definition boom :: "jsval list \<Rightarrow> completion" where
  "boom args = Throw (Error ''boom'')"

text \<open>\<^verbatim>\<open>JSON.stringify\<close> on the empty object, the only value the concrete runs serialize.\<close>

definition stringify_empty :: "jsval \<Rightarrow> string" where
  "stringify_empty v = ''{}''"


section \<open>Basic facts\<close>

lemma emit_simps [simp]:
  "trace (emit e w) = trace w @ [e]"
  "next_tick (emit e w) = next_tick w"
  "replies (emit e w) = replies w"
  "self (emit e w) = self w"
  by (simp_all add: emit_def)

lemma nextTick_simps [simp]:
  "trace (nextTick t w) = trace w"
  "next_tick (nextTick t w) = next_tick w @ [t]"
  "replies (nextTick t w) = replies w"
  "self (nextTick t w) = self w"
  by (simp_all add: nextTick_def)

lemma invocations_append [simp]: "invocations (xs @ ys) = invocations xs @ invocations ys"
  by (induction xs rule: invocations.induct) simp_all

lemma observed_append [simp]: "observed (xs @ ys) = observed xs @ observed ys"
  by (induction xs rule: observed.induct) simp_all

lemma driver_calls_append [simp]: "driver_calls (xs @ ys) = driver_calls xs @ driver_calls ys"
  by (induction xs rule: driver_calls.induct) simp_all

lemma is_handle_iff: "is_handle v = (\<exists>n. v = Handle n)"
  by (cases v) simp_all

lemma fresh_simps [simp]:
  "self (fresh p rs) = p"
  "trace (fresh p rs) = []"
  "next_tick (fresh p rs) = []"
  "replies (fresh p rs) = rs"
  by (simp_all add: fresh_def)

lemma acquired_granted [simp]: "acquired granted"
  by (simp add: acquired_def granted_def arg_at_def)

lemma arg_at_simps [simp]:
  "arg_at (x # xs) 0 = x"
  "arg_at [] i = Undefined"
  "arg_at (x # xs) (Suc i) = arg_at xs i"
  "arg_at (x # y # ys) 1 = y"
  "arg_at [x] 1 = Undefined"
  by (simp_all add: arg_at_def)

lemmas run_defs =
  getCollection_def db_collection_def driver_call_def handler_def tick_def Let_def
  strict_acquisition_def

lemmas op_defs =
  find_op_def findOne_def findOnly_def aggregate_def count_def create_def createOne_def
  update_def updateOne_def findAndUpdate_def remove_op_def removeOnly_def findAndRemove_def

subsection \<open>A later turn\<close>

lemma run_task_trace_mono: "set (trace w) \<subseteq> set (trace (run_task t w))"
  by (cases t) (auto split: completion.splits)

lemma fold_run_task_mono: "set (trace w) \<subseteq> set (trace (fold run_task ts w))"
proof (induction ts arbitrary: w)
  case Nil
  then show ?case by simp
next
  case (Cons t ts)
  have "set (trace w) \<subseteq> set (trace (run_task t w))" by (rule run_task_trace_mono)
  also have "\<dots> \<subseteq> set (trace (fold run_task ts (run_task t w)))" by (rule Cons.IH)
  finally show ?case by simp
qed

lemma fold_run_task_rethrow:
  "Rethrow e \<in> set ts \<Longrightarrow> Uncaught e \<in> set (trace (fold run_task ts w))"
proof (induction ts arbitrary: w)
  case Nil
  then show ?case by simp
next
  case (Cons t ts)
  show ?case
  proof (cases "t = Rethrow e")
    case True
    have "Uncaught e \<in> set (trace (run_task t w))" using True by simp
    then show ?thesis using fold_run_task_mono [of "run_task t w" ts] by auto
  next
    case False
    then have "Rethrow e \<in> set ts" using Cons.prems by simp
    then show ?thesis using Cons.IH by simp
  qed
qed

lemma next_turn_rethrow:
  "Rethrow e \<in> set (next_tick w) \<Longrightarrow> Uncaught e \<in> set (trace (next_turn w))"
  by (simp add: next_turn_def fold_run_task_rethrow)

section \<open>The deferred-rethrow wrapper\<close>

text \<open>
  C3. Given a value that is not a function, \<open>tick\<close> returns nothing
  (\<^verbatim>\<open>undefined\<close>). Given a function it returns a function that runs the original
  with the same receiver and arguments, in the same world, and never throws: when the
  original returns, the wrapper leaves the world as the original left it; when the original
  throws, the wrapper returns normally, nothing more is observable in this turn, the thrown
  value is queued, and it surfaces uncaught on a later scheduling turn.
\<close>

theorem tick_contract:
  "tick (NonFun v) = NonFun Undefined \<and>
   (\<exists>g. tick (Fun f) = Fun g \<and>
      (\<forall>this args w w'.
         fst (g this args w) = Normal \<and>
         (f this args w = (Normal, w') \<longrightarrow> g this args w = (Normal, w')) \<and>
         (\<forall>e. f this args w = (Throw e, w') \<longrightarrow>
            g this args w = (Normal, nextTick (Rethrow e) w') \<and>
            trace (snd (g this args w)) = trace w' \<and>
            Uncaught e \<in> set (trace (next_turn (snd (g this args w)))))))"
  by (auto simp: tick_def next_turn_rethrow split: prod.splits completion.splits)

theorem tick_contract_witness:
  "tick (NonFun (Num 3)) = NonFun Undefined \<and>
   (\<exists>g. tick (callable_of (Fn boom)) = Fun g \<and>
      g Null [Num 1] (fresh users []) =
        (Normal, nextTick (Rethrow (Error ''boom'')) (emit (Invoke [Num 1]) (fresh users []))) \<and>
      trace (snd (g Null [Num 1] (fresh users []))) = [Invoke [Num 1]] \<and>
      Uncaught (Error ''boom'') \<in> set (trace (next_turn (snd (g Null [Num 1] (fresh users []))))))"
proof -
  let ?f = "\<lambda>this args w. (boom args, emit (Invoke args) w)"
  let ?w = "fresh users []"
  from tick_contract [of "Num 3" ?f]
  obtain g where nf: "tick (NonFun (Num 3)) = NonFun Undefined"
    and g: "tick (Fun ?f) = Fun g"
    and all: "\<forall>this args w w'. fst (g this args w) = Normal \<and>
         (?f this args w = (Normal, w') \<longrightarrow> g this args w = (Normal, w')) \<and>
         (\<forall>e. ?f this args w = (Throw e, w') \<longrightarrow>
            g this args w = (Normal, nextTick (Rethrow e) w') \<and>
            trace (snd (g this args w)) = trace w' \<and>
            Uncaught e \<in> set (trace (next_turn (snd (g this args w)))))"
    by blast
  have run: "?f Null [Num 1] ?w = (Throw (Error ''boom''), emit (Invoke [Num 1]) ?w)"
    by (simp add: boom_def)
  from all run
  have "g Null [Num 1] ?w = (Normal, nextTick (Rethrow (Error ''boom'')) (emit (Invoke [Num 1]) ?w))
      \<and> trace (snd (g Null [Num 1] ?w)) = trace (emit (Invoke [Num 1]) ?w)
      \<and> Uncaught (Error ''boom'') \<in> set (trace (next_turn (snd (g Null [Num 1] ?w))))"
    by blast
  moreover have "trace (emit (Invoke [Num 1]) ?w) = [Invoke [Num 1]]"
    by (simp add: fresh_def)
  ultimately show ?thesis using nf g by auto
qed

section \<open>No matching document\<close>

text \<open>
  C1. The collection is acquired and the driver reports no error. When it reports no
  document either, \<open>findOne\<close> (with or without projection), \<open>findAndUpdate\<close> and
  \<open>findAndRemove\<close> invoke the callback once, with an error alone whose message is the
  operation's text followed by the JSON-serialized conditions. When the driver reports an
  empty array, \<open>find\<close> (in each of its call shapes) invokes the callback once with a null
  error and the empty array. When the driver reports \<^verbatim>\<open>null\<close> as the document,
  \<open>findOnly\<close> invokes the callback once with a null error and a null result.
\<close>

theorem no_match:
  assumes "replies w = a # r # rs"
    and "acquired a"
    and "\<not> truthy (arg_at r 0)"
  shows "(\<not> truthy (arg_at r 1) \<longrightarrow>
           invocations (trace (snd (findOne J c (Val p) (Fn cb) w))) =
             invocations (trace w) @ [[Error (msg_findOne @ J c)]] \<and>
           invocations (trace (snd (findOne J c (Fn cb) x w))) =
             invocations (trace w) @ [[Error (msg_findOne @ J c)]] \<and>
           invocations (trace (snd (findAndUpdate J c u (Fn cb) w))) =
             invocations (trace w) @ [[Error (msg_findAndUpdate @ J c)]] \<and>
           invocations (trace (snd (findAndRemove J c (Fn cb) w))) =
             invocations (trace w) @ [[Error (msg_findAndRemove @ J c)]]) \<and>
         (arg_at r 1 = Arr [] \<longrightarrow>
           invocations (trace (snd (find_op c (Val p) (Val opts) (Fn cb) w))) =
             invocations (trace w) @ [[Null, Arr []]] \<and>
           invocations (trace (snd (find_op c (Val p) (Fn cb) x w))) =
             invocations (trace w) @ [[Null, Arr []]] \<and>
           invocations (trace (snd (find_op c (Fn cb) y x w))) =
             invocations (trace w) @ [[Null, Arr []]]) \<and>
         (arg_at r 1 = Null \<longrightarrow>
           invocations (trace (snd (findOnly c (Val p) (Fn cb) w))) =
             invocations (trace w) @ [[Null, Null]] \<and>
           invocations (trace (snd (findOnly c (Fn cb) x w))) =
             invocations (trace w) @ [[Null, Null]])"
proof -
  from assms(2) obtain n where h: "\<not> truthy (arg_at a 0)" "arg_at a 1 = Handle n"
    by (auto simp: acquired_def is_handle_iff)
  note facts = assms(1) h assms(3)
  have one: "\<not> truthy (arg_at r 1) \<Longrightarrow>
      invocations (trace (snd (findOne J c (Val p) (Fn cb) w))) =
        invocations (trace w) @ [[Error (msg_findOne @ J c)]]" for p
    using facts by (simp add: findOne_def run_defs split: prod.splits completion.splits)
  have one': "\<not> truthy (arg_at r 1) \<Longrightarrow>
      invocations (trace (snd (findOne J c (Fn cb) x w))) =
        invocations (trace w) @ [[Error (msg_findOne @ J c)]]"
    using facts by (simp add: findOne_def run_defs split: prod.splits completion.splits)
  have upd: "\<not> truthy (arg_at r 1) \<Longrightarrow>
      invocations (trace (snd (findAndUpdate J c u (Fn cb) w))) =
        invocations (trace w) @ [[Error (msg_findAndUpdate @ J c)]]"
    using facts by (simp add: findAndUpdate_def run_defs split: prod.splits completion.splits)
  have rem: "\<not> truthy (arg_at r 1) \<Longrightarrow>
      invocations (trace (snd (findAndRemove J c (Fn cb) w))) =
        invocations (trace w) @ [[Error (msg_findAndRemove @ J c)]]"
    using facts by (simp add: findAndRemove_def run_defs split: prod.splits completion.splits)
  have f3: "arg_at r 1 = Arr [] \<Longrightarrow>
      invocations (trace (snd (find_op c (Val p) (Val opts) (Fn cb) w))) =
        invocations (trace w) @ [[Null, Arr []]]"
    using facts by (simp add: find_op_def run_defs split: prod.splits completion.splits)
  have f2: "arg_at r 1 = Arr [] \<Longrightarrow>
      invocations (trace (snd (find_op c (Val p) (Fn cb) x w))) =
        invocations (trace w) @ [[Null, Arr []]]"
    using facts by (simp add: find_op_def run_defs split: prod.splits completion.splits)
  have f1: "arg_at r 1 = Arr [] \<Longrightarrow>
      invocations (trace (snd (find_op c (Fn cb) y x w))) =
        invocations (trace w) @ [[Null, Arr []]]"
    using facts by (simp add: find_op_def run_defs split: prod.splits completion.splits)
  have o2: "arg_at r 1 = Null \<Longrightarrow>
      invocations (trace (snd (findOnly c (Val p) (Fn cb) w))) =
        invocations (trace w) @ [[Null, Null]]"
    using facts by (simp add: findOnly_def run_defs split: prod.splits completion.splits)
  have o1: "arg_at r 1 = Null \<Longrightarrow>
      invocations (trace (snd (findOnly c (Fn cb) x w))) =
        invocations (trace w) @ [[Null, Null]]"
    using facts by (simp add: findOnly_def run_defs split: prod.splits completion.splits)
  from one one' upd rem f3 f2 f1 o2 o1 show ?thesis by blast
qed

theorem no_match_witness:
  "invocations (trace (snd (findOne stringify_empty (Obj []) (Fn quiet) (Val Undefined)
       (fresh users [granted, [Null, Null]])))) = [[Error (msg_findOne @ ''{}'')]] \<and>
   invocations (trace (snd (findAndUpdate stringify_empty (Obj []) (Obj []) (Fn quiet)
       (fresh users [granted, [Null, Null]])))) = [[Error (msg_findAndUpdate @ ''{}'')]] \<and>
   invocations (trace (snd (findAndRemove stringify_empty (Obj []) (Fn quiet)
       (fresh users [granted, [Null, Null]])))) = [[Error (msg_findAndRemove @ ''{}'')]] \<and>
   invocations (trace (snd (findOnly (Obj []) (Fn quiet) (Val Undefined)
       (fresh users [granted, [Null, Null]])))) = [[Null, Null]]"
proof -
  have "replies (fresh users [granted, [Null, Null]]) = granted # [Null, Null] # []"
    and "acquired granted" and "\<not> truthy (arg_at [Null, Null] 0)"
    by simp_all
  from no_match [OF this, of stringify_empty "Obj []" "Undefined" quiet "Val Undefined" "Obj []"]
  show ?thesis by (simp add: stringify_empty_def)
qed

section \<open>Updating and removing\<close>

lemma coll_method_if:
  "coll_method c name args k w =
     (if is_handle c then driver_call name args k w else (Throw type_error, w))"
  by (cases c) simp_all

lemma find_toArray_if:
  "find_toArray c args k w =
     (if is_handle c then driver_call ''toArray'' [] k (emit (DriverCall ''find'' args) w)
      else (Throw type_error, w))"
  by (cases c) simp_all

text \<open>
  C8. Once the collection is acquired, the calls \<open>update\<close> issues to the driver are the
  acquisition and one \<^verbatim>\<open>update\<close> with the options \<^verbatim>\<open>{w: 1, multi: true}\<close>, whatever
  the caller passed; \<open>remove\<close> issues one \<^verbatim>\<open>remove\<close> with \<^verbatim>\<open>{w: 1}\<close>. When the
  driver then reports no error and zero documents (a falsy count), each of the two invokes
  the callback once, with an error alone whose message is the operation's text followed by
  the JSON-serialized conditions.
\<close>

theorem update_remove_nothing_affected:
  assumes "replies w = a # rs" and "acquired a"
  shows "driver_calls (trace (snd (update J c u (Fn cb) w))) =
           driver_calls (trace w) @
             [strict_acquisition w,
              DriverCall ''update'' [c, u, Obj [(''w'', Num 1), (''multi'', Bool True)]]] \<and>
         driver_calls (trace (snd (remove_op J c (Fn cb) w))) =
           driver_calls (trace w) @
             [strict_acquisition w, DriverCall ''remove'' [c, Obj [(''w'', Num 1)]]] \<and>
         (\<forall>r rs'. rs = r # rs' \<and> \<not> truthy (arg_at r 0) \<and> \<not> truthy (arg_at r 1) \<longrightarrow>
            invocations (trace (snd (update J c u (Fn cb) w))) =
              invocations (trace w) @ [[Error (msg_update @ J c)]] \<and>
            invocations (trace (snd (remove_op J c (Fn cb) w))) =
              invocations (trace w) @ [[Error (msg_remove @ J c)]])"
proof -
  have calls_u: "driver_calls (trace (snd (update J c u (Fn cb) w))) =
      driver_calls (trace w) @
        [strict_acquisition w,
         DriverCall ''update'' [c, u, Obj [(''w'', Num 1), (''multi'', Bool True)]]]"
    using assms
    by (simp add: update_def run_defs acquired_def coll_method_if
          split: prod.splits completion.splits list.splits)
  have calls_r: "driver_calls (trace (snd (remove_op J c (Fn cb) w))) =
      driver_calls (trace w) @
        [strict_acquisition w, DriverCall ''remove'' [c, Obj [(''w'', Num 1)]]]"
    using assms
    by (simp add: remove_op_def run_defs acquired_def coll_method_if
          split: prod.splits completion.splits list.splits)
  have zero_u: "invocations (trace (snd (update J c u (Fn cb) w))) =
      invocations (trace w) @ [[Error (msg_update @ J c)]]"
    if "rs = r # rs'" "\<not> truthy (arg_at r 0)" "\<not> truthy (arg_at r 1)" for r rs'
    using assms that
    by (simp add: update_def run_defs acquired_def coll_method_if
          split: prod.splits completion.splits)
  have zero_r: "invocations (trace (snd (remove_op J c (Fn cb) w))) =
      invocations (trace w) @ [[Error (msg_remove @ J c)]]"
    if "rs = r # rs'" "\<not> truthy (arg_at r 0)" "\<not> truthy (arg_at r 1)" for r rs'
    using assms that
    by (simp add: remove_op_def run_defs acquired_def coll_method_if
          split: prod.splits completion.splits)
  from calls_u calls_r zero_u zero_r show ?thesis by blast
qed

theorem update_remove_nothing_affected_witness:
  "driver_calls (trace (snd (update stringify_empty (Obj []) (Obj [(''n'', Num 2)]) (Fn quiet)
       (fresh users [granted, [Null, Num 0]])))) =
     [DriverCall ''collection'' [Str ''users'', Obj [(''w'', Num 1), (''strict'', Bool True)]],
      DriverCall ''update''
        [Obj [], Obj [(''n'', Num 2)], Obj [(''w'', Num 1), (''multi'', Bool True)]]] \<and>
   invocations (trace (snd (update stringify_empty (Obj []) (Obj [(''n'', Num 2)]) (Fn quiet)
       (fresh users [granted, [Null, Num 0]])))) = [[Error (msg_update @ ''{}'')]] \<and>
   invocations (trace (snd (remove_op stringify_empty (Obj []) (Fn quiet)
       (fresh users [granted, [Null, Num 0]])))) = [[Error (msg_remove @ ''{}'')]]"
proof -
  have "replies (fresh users [granted, [Null, Num 0]]) = granted # [[Null, Num 0]]"
    and "acquired granted"
    by simp_all
  from update_remove_nothing_affected
    [OF this, of stringify_empty "Obj []" "Obj [(''n'', Num 2)]" quiet]
  show ?thesis
    by (simp add: stringify_empty_def strict_acquisition_def users_def)
qed

section \<open>updateOne and the options helper\<close>

lemma extend_not_exported:
  "''extend'' \<notin> set utils_exports" "''extend'' \<notin> set utils_exports_lib"
  by (simp_all add: utils_exports_def utils_exports_lib_def)

text \<open>
  Were \<^verbatim>\<open>utils.extend\<close> undefined, the handler of the acquisition would throw before
  the driver's \<^verbatim>\<open>update\<close> is called: the driver sees the acquisition only, the callback
  is not invoked, and the \<^verbatim>\<open>TypeError\<close> is queued for a later turn.
\<close>

lemma updateOne_without_extend:
  assumes "replies w = a # rs" and "acquired a"
  shows "trace (snd (updateOne None J c u opts cb w)) =
           trace w @ [strict_acquisition w, DriverReply a]"
    and "next_tick (snd (updateOne None J c u opts cb w)) = next_tick w @ [Rethrow type_error]"
  using assms
  by (simp_all add: updateOne_def run_defs acquired_def split: prod.splits arg.splits)

lemma map_of_set_key:
  "map_of (set_key k v kvs) k' = (if k' = k then Some v else map_of kvs k')"
  by (induction kvs) auto

lemma map_of_merged:
  "map_of (fold (\<lambda>p. set_key (fst p) (snd p)) kvs d) k =
     (case map_of (rev kvs) k of Some v \<Rightarrow> Some v | None \<Rightarrow> map_of d k)"
proof (induction kvs arbitrary: d)
  case Nil
  show ?case by simp
next
  case (Cons p kvs)
  show ?case
    by (simp add: Cons.IH map_of_set_key map_add_def split: option.splits)
qed

lemma map_of_rev_distinct:
  "distinct (map fst xs) \<Longrightarrow> map_of (rev xs) k = map_of xs k"
proof (induction xs)
  case Nil
  show ?case by simp
next
  case (Cons x xs)
  then have IH: "map_of (rev xs) k = map_of xs k" and fresh_key: "fst x \<notin> fst ` set xs"
    by simp_all
  show ?case
  proof (cases "k = fst x")
    case True
    then have "map_of xs k = None" using fresh_key by (simp add: map_of_eq_None_iff)
    then show ?thesis using True IH by (simp add: map_add_def)
  next
    case False
    then show ?thesis using IH by (simp add: map_add_def split: option.splits)
  qed
qed

lemma extend_merge_key:
  assumes "distinct (map fst kvs)"
  shows "get_key (extend_merge (Obj d) (Obj kvs)) k =
           (case map_of kvs k of Some v \<Rightarrow> v | None \<Rightarrow> get_key (Obj d) k)"
  using assms by (simp add: map_of_merged map_of_rev_distinct split: option.splits)

text \<open>
  C6. \<open>updateOne\<close> is called with an options object; the helper merges as the
  specification says, and the collection is acquired. The calls issued to the driver are
  the acquisition and one \<^verbatim>\<open>update\<close> whose options are the merge of the caller's
  options over \<^verbatim>\<open>{w: 1}\<close>: every key the caller sets has the caller's value, every
  other key has the value of the default. When the driver then reports no error and zero
  affected documents, the callback is invoked once with an error alone whose message is
  the operation's text followed by the JSON-serialized conditions.
\<close>

theorem updateOne_merges_options:
  assumes "replies w = a # rs" and "acquired a"
  shows "driver_calls (trace (snd (updateOne (Some extend_merge) J c u (Val opts) (Fn cb) w))) =
           driver_calls (trace w) @
             [strict_acquisition w,
              DriverCall ''update'' [c, u, extend_merge (Obj [(''w'', Num 1)]) opts]] \<and>
         (\<forall>kvs k. opts = Obj kvs \<and> distinct (map fst kvs) \<longrightarrow>
            get_key (extend_merge (Obj [(''w'', Num 1)]) opts) k =
              (case map_of kvs k of Some v \<Rightarrow> v | None \<Rightarrow> get_key (Obj [(''w'', Num 1)]) k)) \<and>
         (\<forall>r rs'. rs = r # rs' \<and> \<not> truthy (arg_at r 0) \<and> \<not> truthy (arg_at r 1) \<longrightarrow>
            invocations (trace (snd (updateOne (Some extend_merge) J c u (Val opts) (Fn cb) w))) =
              invocations (trace w) @ [[Error (msg_updateOne @ J c)]])"
proof -
  have calls: "driver_calls (trace (snd (updateOne (Some extend_merge) J c u (Val opts) (Fn cb) w))) =
      driver_calls (trace w) @
        [strict_acquisition w,
         DriverCall ''update'' [c, u, extend_merge (Obj [(''w'', Num 1)]) opts]]"
    using assms
    by (simp add: updateOne_def run_defs acquired_def coll_method_if
          split: prod.splits completion.splits list.splits)
  have zero: "invocations (trace (snd (updateOne (Some extend_merge) J c u (Val opts) (Fn cb) w))) =
      invocations (trace w) @ [[Error (msg_updateOne @ J c)]]"
    if "rs = r # rs'" "\<not> truthy (arg_at r 0)" "\<not> truthy (arg_at r 1)" for r rs'
    using assms that
    by (simp add: updateOne_def run_defs acquired_def coll_method_if
          split: prod.splits completion.splits)
  from calls zero extend_merge_key show ?thesis by blast
qed

theorem updateOne_merges_options_witness:
  "driver_calls (trace (snd (updateOne (Some extend_merge) stringify_empty (Obj [])
       (Obj [(''n'', Num 2)]) (Val (Obj [(''upsert'', Bool True)])) (Fn quiet)
       (fresh users [granted, [Null, Num 0]])))) =
     [DriverCall ''collection'' [Str ''users'', Obj [(''w'', Num 1), (''strict'', Bool True)]],
      DriverCall ''update''
        [Obj [], Obj [(''n'', Num 2)], Obj [(''w'', Num 1), (''upsert'', Bool True)]]] \<and>
   invocations (trace (snd (updateOne (Some extend_merge) stringify_empty (Obj [])
       (Obj [(''n'', Num 2)]) (Val (Obj [(''upsert'', Bool True)])) (Fn quiet)
       (fresh users [granted, [Null, Num 0]])))) = [[Error (msg_updateOne @ ''{}'')]]"
proof -
  have "replies (fresh users [granted, [Null, Num 0]]) = granted # [[Null, Num 0]]"
    and "acquired granted"
    by simp_all
  from updateOne_merges_options
    [OF this, of stringify_empty "Obj []" "Obj [(''n'', Num 2)]"
      "Obj [(''upsert'', Bool True)]" quiet]
  show ?thesis
    by (simp add: stringify_empty_def strict_acquisition_def users_def)
qed

text \<open>
  C10. The collection is acquired and the driver reports no error and a non-zero number
  of affected or removed documents. Then \<open>update\<close> and \<open>remove\<close> invoke the callback once,
  with the single argument \<^verbatim>\<open>null\<close>; so does \<open>updateOne\<close>, with or without options,
  whatever function the options helper is.
\<close>

theorem success_without_result:
  assumes "replies w = a # r # rs" and "acquired a"
    and "\<not> truthy (arg_at r 0)" and "truthy (arg_at r 1)"
  shows "invocations (trace (snd (update J c u (Fn cb) w))) = invocations (trace w) @ [[Null]] \<and>
         invocations (trace (snd (remove_op J c (Fn cb) w))) = invocations (trace w) @ [[Null]] \<and>
         invocations (trace (snd (updateOne (Some ext) J c u (Val opts) (Fn cb) w))) =
           invocations (trace w) @ [[Null]] \<and>
         invocations (trace (snd (updateOne (Some ext) J c u (Fn cb) x w))) =
           invocations (trace w) @ [[Null]]"
proof -
  from assms(2) obtain n where h: "\<not> truthy (arg_at a 0)" "arg_at a 1 = Handle n"
    by (auto simp: acquired_def is_handle_iff)
  note facts = assms(1) h assms(3,4)
  have 1: "invocations (trace (snd (update J c u (Fn cb) w))) = invocations (trace w) @ [[Null]]"
    using facts by (simp add: update_def run_defs split: prod.splits completion.splits)
  have 2: "invocations (trace (snd (remove_op J c (Fn cb) w))) = invocations (trace w) @ [[Null]]"
    using facts by (simp add: remove_op_def run_defs split: prod.splits completion.splits)
  have 3: "invocations (trace (snd (updateOne (Some ext) J c u (Val opts) (Fn cb) w))) =
      invocations (trace w) @ [[Null]]"
    using facts by (simp add: updateOne_def run_defs split: prod.splits completion.splits)
  have 4: "invocations (trace (snd (updateOne (Some ext) J c u (Fn cb) x w))) =
      invocations (trace w) @ [[Null]]"
    using facts by (simp add: updateOne_def run_defs split: prod.splits completion.splits)
  from 1 2 3 4 show ?thesis by blast
qed

theorem success_without_result_witness:
  "invocations (trace (snd (update stringify_empty (Obj []) (Obj [(''n'', Num 2)]) (Fn quiet)
       (fresh users [granted, [Null, Num 3]])))) = [[Null]] \<and>
   invocations (trace (snd (remove_op stringify_empty (Obj []) (Fn quiet)
       (fresh users [granted, [Null, Num 3]])))) = [[Null]] \<and>
   invocations (trace (snd (updateOne (Some extend_merge) stringify_empty (Obj [])
       (Obj [(''n'', Num 2)]) (Fn quiet) (Val Undefined)
       (fresh users [granted, [Null, Num 3]])))) = [[Null]]"
proof -
  have "replies (fresh users [granted, [Null, Num 3]]) = granted # [Null, Num 3] # []"
    and "acquired granted" and "\<not> truthy (arg_at [Null, Num 3] 0)"
    and "truthy (arg_at [Null, Num 3] 1)"
    by simp_all
  from success_without_result
    [OF this, of stringify_empty "Obj []" "Obj [(''n'', Num 2)]" quiet extend_merge _
      "Val Undefined"]
  show ?thesis by simp
qed

section \<open>Exceptions thrown by the caller's callback\<close>

text \<open>
  C4. The callback throws. With \<open>count\<close>, \<open>aggregate\<close> and \<open>findAndRemove\<close> the handler
  given to the driver is not wrapped: the driver observes the exception in the call stack
  that fired the completion, and nothing is deferred to a later turn. With \<open>findOne\<close>,
  whose handler is wrapped, the driver observes nothing and the exception is queued.
\<close>

theorem unwrapped_handlers_throw_into_driver:
  "observed (trace (snd (count (Obj []) (Fn boom) (fresh users [granted, [Null, Num 0]])))) =
     [Error ''boom''] \<and>
   next_tick (snd (count (Obj []) (Fn boom) (fresh users [granted, [Null, Num 0]]))) = [] \<and>
   observed (trace (snd (aggregate (Arr []) (Fn boom) (Val Undefined)
       (fresh users [granted, [Null, Arr []]])))) = [Error ''boom''] \<and>
   observed (trace (snd (findAndRemove stringify_empty (Obj []) (Fn boom)
       (fresh users [granted, [Null, Obj [(''n'', Num 2)]]])))) = [Error ''boom''] \<and>
   observed (trace (snd (findOne stringify_empty (Obj []) (Fn boom) (Val Undefined)
       (fresh users [granted, [Null, Obj [(''n'', Num 2)]]])))) = [] \<and>
   next_tick (snd (findOne stringify_empty (Obj []) (Fn boom) (Val Undefined)
       (fresh users [granted, [Null, Obj [(''n'', Num 2)]]]))) = [Rethrow (Error ''boom'')]"
  by (simp add: count_def aggregate_def findAndRemove_def findOne_def run_defs granted_def
        users_def boom_def)

section \<open>Collection acquisition\<close>

text \<open>
  C7. In the oldest variant \<open>find\<close> requests the collection with the options
  \<^verbatim>\<open>{w: 1}\<close>: strict-existence validation is not requested, although the comment on
  the call says the collection is fetched in strict mode.
\<close>

theorem oldest_variant_not_strict:
  "driver_calls (trace (snd (find_lib (Obj []) (Fn quiet) (fresh users [granted, [Null, Arr []]])))) =
     [DriverCall ''collection'' [Str ''users'', Obj [(''w'', Num 1)]],
      DriverCall ''find'' [Obj []], DriverCall ''toArray'' []] \<and>
   get_key (Obj [(''w'', Num 1)]) ''strict'' = Undefined \<and>
   get_key (Obj [(''w'', Num 1), (''strict'', Bool True)]) ''strict'' = Bool True"
  by (simp add: find_lib_def getCollection_lib_def run_defs granted_def users_def quiet_def)

section \<open>Instance state\<close>

text \<open>
  C9. A provider declares two indexes. After a run of \<open>ensureIndexes\<close> in which both
  creations succeed the declared list is empty: the operation has consumed the instance's
  own array. After a run in which the first creation fails the list holds the second
  specification only, and a second call creates that one alone: the index that failed is
  never attempted again.
\<close>

theorem ensureIndexes_consumes_declared_list:
  "this_indexes (self (fresh indexed_users [granted, [Null], [Null]])) =
     Some [(Obj [(''email'', Num 1)], Obj [(''unique'', Bool True)]),
           (Obj [(''age'', Num 1)], Obj [])] \<and>
   this_indexes (self (snd (ensureIndexes (Fn quiet)
       (fresh indexed_users [granted, [Null], [Null]])))) = Some [] \<and>
   invocations (trace (snd (ensureIndexes (Fn quiet)
       (fresh indexed_users [granted, [Null], [Null]])))) = [[Undefined]] \<and>
   this_indexes (self (snd (ensureIndexes (Fn quiet)
       (fresh indexed_users [granted, [Error ''E'']])))) =
     Some [(Obj [(''age'', Num 1)], Obj [])] \<and>
   driver_calls (trace (snd (ensureIndexes (Fn quiet)
       (fresh (self (snd (ensureIndexes (Fn quiet) (fresh indexed_users [granted, [Error ''E'']]))))
          [granted, [Null]])))) =
     [DriverCall ''collection'' [Str ''users'', Obj [(''w'', Num 1), (''strict'', Bool True)]],
      DriverCall ''ensureIndex''
        [Obj [(''age'', Num 1)], Obj [(''w'', Num 1), (''background'', Bool True)]]]"
  by (simp add: ensureIndexes_def done_cb_def run_defs coll_method_if granted_def
        indexed_users_def quiet_def)


section \<open>Index ensuring\<close>

lemma deliver_tick:
  "deliver (tick (Fun F)) r w =
     (Normal, case F Undefined r w of
                (Normal, w') \<Rightarrow> w'
              | (Throw e, w') \<Rightarrow> nextTick (Rethrow e) w')"
  by (simp add: tick_def split: prod.splits completion.splits)

lemma trace_deliver_tick [simp]:
  "trace (snd (deliver (tick (Fun F)) r w)) = trace (snd (F Undefined r w))"
  by (simp add: deliver_tick split: prod.splits completion.splits)

lemma self_deliver_tick [simp]:
  "self (snd (deliver (tick (Fun F)) r w)) = self (snd (F Undefined r w))"
  by (simp add: deliver_tick split: prod.splits completion.splits)

lemma assign_forced:
  "is_obj v \<Longrightarrow>
     (case assign v ''w'' (Num 1) of
        None \<Rightarrow> None
      | Some v1 \<Rightarrow> assign v1 ''background'' (Bool True)) = Some (forced v)"
  by (cases v) simp_all


lemma create_index_step:
  assumes "is_obj (snd s)" and "replies w = r # rs"
  shows "trace (snd (create_index (Fn cb) (Handle n) (s # specs) w)) =
           (if truthy (arg_at r 0)
            then trace w @ [DriverCall ''ensureIndex'' [fst s, forced (snd s)], DriverReply r,
                            Invoke [arg_at r 0]]
            else trace (snd (create_index (Fn cb) (Handle n) specs
                   (emit (DriverReply r)
                     ((emit (DriverCall ''ensureIndex'' [fst s, forced (snd s)])
                        (w\<lparr>self := (self w)\<lparr>this_indexes := Some specs\<rparr>\<rparr>))\<lparr>replies := rs\<rparr>)))))"
proof -
  from assms(1) obtain kvs where kvs: "snd s = Obj kvs" by (cases "snd s") simp_all
  show ?thesis
    using assms(2) kvs
    by (simp add: driver_call_def Let_def done_cb_def)
qed





lemma ensureIndexes_acquired:
  assumes "this_indexes (self w) = Some specs" and "specs \<noteq> []"
    and "replies w = a # rs" and "acquired a"
  shows "trace (snd (ensureIndexes cb w)) =
           trace (snd (create_index cb (arg_at a 1) specs
             (emit (DriverReply a) ((emit (strict_acquisition w) w)\<lparr>replies := rs\<rparr>))))"
  using assms
  by (simp add: ensureIndexes_def getCollection_def db_collection_def driver_call_def
        handler_def Let_def strict_acquisition_def acquired_def)

lemma ensureIndexes_empty:
  assumes "this_indexes (self w) = None \<or> this_indexes (self w) = Some []"
  shows "ensureIndexes (Fn cb) w = (Normal, nextTick (Run cb) w)"
  using assms by (auto simp: ensureIndexes_def)

lemma next_turn_single_callback:
  "next_tick w = [] \<Longrightarrow>
     invocations (trace (next_turn (nextTick (Run cb) w))) = invocations (trace w) @ [[]] \<and>
     driver_calls (trace (next_turn (nextTick (Run cb) w))) = driver_calls (trace w)"
  by (simp add: next_turn_def nextTick_def emit_def split: completion.splits)




section \<open>One completion per call\<close>

lemma once_find:
  assumes "replies w = a # b # rs" and "\<not> truthy (arg_at a 0) \<Longrightarrow> is_handle (arg_at a 1)"
    and "shift1 p (shift1 opts x) = Fn cb"
  shows "invocations (trace (snd (find_op c p opts x w))) =
           invocations (trace w) @
             [if truthy (arg_at a 0) then [arg_at a 0]
              else if truthy (arg_at b 0) then [arg_at b 0]
              else [Null, arg_at b 1]]"
  using assms
  by (cases p; cases opts)
     (simp_all add: find_op_def run_defs find_toArray_if split: prod.splits completion.splits)

lemma once_findOne:
  assumes "replies w = a # b # rs" and "\<not> truthy (arg_at a 0) \<Longrightarrow> is_handle (arg_at a 1)"
    and "shift1 p x = Fn cb"
  shows "invocations (trace (snd (findOne J c p x w))) =
           invocations (trace w) @
             [if truthy (arg_at a 0) then [arg_at a 0]
              else if truthy (arg_at b 0) then [arg_at b 0]
              else if \<not> truthy (arg_at b 1) then [Error (msg_findOne @ J c)]
              else [Null, arg_at b 1]]"
  using assms
  by (cases p)
     (simp_all add: findOne_def run_defs coll_method_if split: prod.splits completion.splits)

lemma once_findOnly:
  assumes "replies w = a # b # rs" and "\<not> truthy (arg_at a 0) \<Longrightarrow> is_handle (arg_at a 1)"
    and "shift1 p x = Fn cb"
  shows "invocations (trace (snd (findOnly c p x w))) =
           invocations (trace w) @
             [if truthy (arg_at a 0) then [arg_at a 0]
              else if truthy (arg_at b 0) then [arg_at b 0]
              else [Null, arg_at b 1]]"
  using assms
  by (cases p)
     (simp_all add: findOnly_def run_defs coll_method_if split: prod.splits completion.splits)

lemma once_aggregate:
  assumes "replies w = a # b # rs" and "\<not> truthy (arg_at a 0) \<Longrightarrow> is_handle (arg_at a 1)"
    and "shift1 opts x = Fn cb"
  shows "invocations (trace (snd (aggregate pl opts x w))) =
           invocations (trace w) @ [if truthy (arg_at a 0) then [arg_at a 0] else b]"
  using assms
  by (cases opts)
     (simp_all add: aggregate_def run_defs coll_method_if split: prod.splits completion.splits)

lemma once_count:
  assumes "replies w = a # b # rs" and "\<not> truthy (arg_at a 0) \<Longrightarrow> is_handle (arg_at a 1)"
  shows "invocations (trace (snd (count c (Fn cb) w))) =
           invocations (trace w) @
             [if truthy (arg_at a 0) then [arg_at a 0]
              else if truthy (arg_at b 0) then [arg_at b 0]
              else [Null, arg_at b 1]]"
  using assms
  by (simp_all add: count_def run_defs coll_method_if split: prod.splits completion.splits)

lemma once_create:
  assumes "replies w = a # b # rs" and "\<not> truthy (arg_at a 0) \<Longrightarrow> is_handle (arg_at a 1)"
  shows "invocations (trace (snd (create J docs (Fn cb) w))) =
           invocations (trace w) @
             [if truthy (arg_at a 0) then [arg_at a 0]
              else if truthy (arg_at b 0) then [arg_at b 0]
              else if none_inserted (arg_at b 1) then [Error (msg_create @ J docs)]
              else [Null, arg_at b 1]]"
    and "invocations (trace (snd (createOne J docs (Fn cb) w))) =
           invocations (trace w) @
             [if truthy (arg_at a 0) then [arg_at a 0]
              else if truthy (arg_at b 0) then [arg_at b 0]
              else if none_inserted (arg_at b 1) then [Error (msg_createOne @ J docs)]
              else [Null, js_first (arg_at b 1)]]"
  using assms
  by (simp_all add: create_def createOne_def run_defs coll_method_if
        split: prod.splits completion.splits)

lemma once_update:
  assumes "replies w = a # b # rs" and "\<not> truthy (arg_at a 0) \<Longrightarrow> is_handle (arg_at a 1)"
  shows "invocations (trace (snd (update J c u (Fn cb) w))) =
           invocations (trace w) @
             [if truthy (arg_at a 0) then [arg_at a 0]
              else if truthy (arg_at b 0) then [arg_at b 0]
              else if \<not> truthy (arg_at b 1) then [Error (msg_update @ J c)]
              else [Null]]"
    and "invocations (trace (snd (findAndUpdate J c u (Fn cb) w))) =
           invocations (trace w) @
             [if truthy (arg_at a 0) then [arg_at a 0]
              else if truthy (arg_at b 0) then [arg_at b 0]
              else if \<not> truthy (arg_at b 1) then [Error (msg_findAndUpdate @ J c)]
              else [Null, arg_at b 1]]"
  using assms
  by (simp_all add: update_def findAndUpdate_def run_defs coll_method_if
        split: prod.splits completion.splits)

lemma once_updateOne:
  assumes "replies w = a # b # rs" and "\<not> truthy (arg_at a 0) \<Longrightarrow> is_handle (arg_at a 1)"
    and "shift1 opts x = Fn cb"
  shows "invocations (trace (snd (updateOne (Some f) J c u opts x w))) =
           invocations (trace w) @
             [if truthy (arg_at a 0) then [arg_at a 0]
              else if truthy (arg_at b 0) then [arg_at b 0]
              else if \<not> truthy (arg_at b 1) then [Error (msg_updateOne @ J c)]
              else [Null]]"
  using assms
  by (cases opts)
     (simp_all add: updateOne_def run_defs coll_method_if split: prod.splits completion.splits)

lemma once_remove:
  assumes "replies w = a # b # rs" and "\<not> truthy (arg_at a 0) \<Longrightarrow> is_handle (arg_at a 1)"
  shows "invocations (trace (snd (remove_op J c (Fn cb) w))) =
           invocations (trace w) @
             [if truthy (arg_at a 0) then [arg_at a 0]
              else if truthy (arg_at b 0) then [arg_at b 0]
              else if \<not> truthy (arg_at b 1) then [Error (msg_remove @ J c)]
              else [Null]]"
    and "invocations (trace (snd (removeOnly c (Fn cb) w))) =
           invocations (trace w) @
             [if truthy (arg_at a 0) then [arg_at a 0]
              else if truthy (arg_at b 0) then [arg_at b 0]
              else [Null, arg_at b 1]]"
    and "invocations (trace (snd (findAndRemove J c (Fn cb) w))) =
           invocations (trace w) @
             [if truthy (arg_at a 0) then [arg_at a 0]
              else if truthy (arg_at b 0) then [arg_at b 0]
              else if \<not> truthy (arg_at b 1) then [Error (msg_findAndRemove @ J c)]
              else [Null, arg_at b 1]]"
  using assms
  by (simp_all add: remove_op_def removeOnly_def findAndRemove_def run_defs coll_method_if
        split: prod.splits completion.splits)

lemma create_index_once:
  assumes "\<forall>s\<in>set specs. is_obj (snd s)" and "length specs \<le> length (replies w)"
  shows "\<exists>e. invocations (trace (snd (create_index (Fn cb) (Handle n) specs w))) =
               invocations (trace w) @ [[e]] \<and> (truthy e \<or> e = Undefined)"
  using assms
proof (induction specs arbitrary: w)
  case Nil
  then show ?case by (simp add: done_cb_def)
next
  case (Cons s specs)
  from Cons.prems(2) obtain r rs where rs: "replies w = r # rs"
    by (cases "replies w") simp_all
  have obj: "is_obj (snd s)" using Cons.prems by simp
  let ?w2 = "emit (DriverReply r)
     ((emit (DriverCall ''ensureIndex'' [fst s, forced (snd s)])
        (w\<lparr>self := (self w)\<lparr>this_indexes := Some specs\<rparr>\<rparr>))\<lparr>replies := rs\<rparr>)"
  show ?case
  proof (cases "truthy (arg_at r 0)")
    case True
    then show ?thesis
      using create_index_step [OF obj rs, of cb n specs] by auto
  next
    case False
    have "\<exists>e. invocations (trace (snd (create_index (Fn cb) (Handle n) specs ?w2))) =
        invocations (trace ?w2) @ [[e]] \<and> (truthy e \<or> e = Undefined)"
      using Cons.prems rs by (intro Cons.IH) simp_all
    then show ?thesis
      using create_index_step [OF obj rs, of cb n specs] False by simp
  qed
qed

lemma ensureIndexes_refused:
  assumes "declared w \<noteq> []" and "replies w = a # rs" and "truthy (arg_at a 0)"
  shows "trace (snd (ensureIndexes (Fn cb) w)) =
           trace w @ [strict_acquisition w, DriverReply a, Invoke [arg_at a 0]]"
  using assms
  by (simp add: ensureIndexes_def declared_def run_defs done_cb_def
        split: prod.splits completion.splits option.splits)

lemma ensureIndexes_once:
  assumes "declared w \<noteq> []" and "\<forall>s\<in>set (declared w). is_obj (snd s)"
    and "answered w (length (declared w))"
  shows "\<exists>args. invocations (trace (snd (ensureIndexes (Fn cb) w))) =
                  invocations (trace w) @ [args] \<and> (error_alone args \<or> no_error args)"
proof -
  from assms(3) obtain a rs where rs: "replies w = a # rs"
    by (cases "replies w") (simp_all add: answered_def)
  from assms(1) obtain specs where specs: "this_indexes (self w) = Some specs" "specs \<noteq> []"
    "declared w = specs"
    by (auto simp: declared_def split: option.splits)
  show ?thesis
  proof (cases "truthy (arg_at a 0)")
    case True
    then have "invocations (trace (snd (ensureIndexes (Fn cb) w))) =
        invocations (trace w) @ [[arg_at a 0]] \<and> error_alone [arg_at a 0]"
      using ensureIndexes_refused [OF assms(1) rs, of cb]
      by (simp add: strict_acquisition_def error_alone_def)
    then show ?thesis by blast
  next
    case False
    then obtain n where n: "arg_at a 1 = Handle n" and acq: "acquired a"
      using assms(3) rs by (auto simp: answered_def acquired_def is_handle_iff)
    let ?w1 = "emit (DriverReply a) ((emit (strict_acquisition w) w)\<lparr>replies := rs\<rparr>)"
    have "\<exists>e. invocations (trace (snd (create_index (Fn cb) (Handle n) specs ?w1))) =
        invocations (trace ?w1) @ [[e]] \<and> (truthy e \<or> e = Undefined)"
      using assms specs rs by (intro create_index_once) (simp_all add: answered_def)
    then obtain e where e: "invocations (trace (snd (ensureIndexes (Fn cb) w))) =
        invocations (trace w) @ [[e]]" "truthy e \<or> e = Undefined"
      using ensureIndexes_acquired [OF specs(1,2) rs acq, of "Fn cb"] n
      by (auto simp: strict_acquisition_def)
    then have "error_alone [e] \<or> no_error [e]"
      by (auto simp: error_alone_def no_error_def)
    with e show ?thesis by blast
  qed
qed

lemma envelope_cases:
  "truthy e \<Longrightarrow> error_alone [e]"
  "no_error [Null]" "no_error [Null, x]" "no_error []" "no_error [Undefined]"
  by (simp_all add: error_alone_def no_error_def)

lemma once_normalized:
  assumes "callback_of r = Fn cb" and "normalized r" and "answered w 1"
  shows "\<exists>args. invocations (trace (snd (perform X J r w))) = invocations (trace w) @ [args] \<and>
                 (error_alone args \<or> no_error args)"
proof -
  from assms(3) obtain a b rs where rs: "replies w = a # b # rs"
    by (cases "replies w"; cases "tl (replies w)") (simp_all add: answered_def)
  with assms(3) have h: "\<not> truthy (arg_at a 0) \<Longrightarrow> is_handle (arg_at a 1)"
    by (auto simp: answered_def)
  note E = envelope_cases
  show ?thesis
  proof (cases r)
    case (Find c p opts x)
    then show ?thesis using once_find [OF rs h, of p opts x cb c] assms(1) E by auto
  next
    case (FindOne c p x)
    then show ?thesis using once_findOne [OF rs h, of p x cb J c] assms(1) E by auto
  next
    case (FindOnly c p x)
    then show ?thesis using once_findOnly [OF rs h, of p x cb c] assms(1) E by auto
  next
    case (Aggregate pl opts x)
    then show ?thesis using assms(2) by simp
  next
    case (Count c x)
    then show ?thesis using once_count [OF rs h, of c cb] assms(1) E by auto
  next
    case (Create docs x)
    then show ?thesis using once_create(1) [OF rs h, of J docs cb] assms(1) E by auto
  next
    case (CreateOne doc x)
    then show ?thesis using once_create(2) [OF rs h, of J doc cb] assms(1) E by auto
  next
    case (Update c u x)
    then show ?thesis using once_update(1) [OF rs h, of J c u cb] assms(1) E by auto
  next
    case (UpdateOne c u opts x)
    then show ?thesis using assms(2) by simp
  next
    case (FindAndUpdate c u x)
    then show ?thesis using once_update(2) [OF rs h, of J c u cb] assms(1) E by auto
  next
    case (Remove c x)
    then show ?thesis using once_remove(1) [OF rs h, of J c cb] assms(1) E by auto
  next
    case (RemoveOnly c x)
    then show ?thesis using once_remove(2) [OF rs h, of c cb] assms(1) E by auto
  next
    case (FindAndRemove c x)
    then show ?thesis using once_remove(3) [OF rs h, of J c cb] assms(1) E by auto
  next
    case (EnsureIndexes x)
    then show ?thesis using assms(2) by simp
  qed
qed

text \<open>
  C2, as stated, fails: \<open>update\<close> succeeds (the collection is acquired, the driver reports
  one affected document and no error) and the callback is invoked once with the single
  argument \<^verbatim>\<open>null\<close>: it receives neither an error nor a result.
\<close>

theorem update_success_delivers_neither:
  "invocations (trace (snd (perform (Some extend_merge) stringify_empty
       (Update (Obj []) (Obj [(''n'', Num 2)]) (Fn quiet))
       (fresh users [granted, [Null, Num 1]])))) = [[Null]] \<and>
   \<not> receives_error [Null] \<and> \<not> receives_result [Null]"
  by (simp add: update_def run_defs granted_def quiet_def receives_error_def
        receives_result_def)

text \<open>
  C2, amended. The caller passes a function as callback and the driver plays its part (it
  answers the acquisition with an error or a handle and completes every further call).
  Then every operation that builds its completion itself invokes the callback exactly
  once, either with an error alone or with a null error followed by at most one result
  (\<open>update\<close> and \<open>remove\<close> deliver no result on success); so does \<open>updateOne\<close>, whatever
  function the options helper is. \<open>aggregate\<close> invokes the callback exactly once, with the
  acquisition error alone or else with the arguments of the driver's completion as they
  are. \<open>ensureIndexes\<close> with no declared index invokes the callback exactly once, on the
  next turn and without arguments; with declared indexes whose options are objects it
  invokes it exactly once, with an error alone or with \<^verbatim>\<open>undefined\<close>.
\<close>

theorem one_completion:
  assumes "callback_of r = Fn cb"
  shows "(normalized r \<and> answered w 1 \<longrightarrow>
            (\<exists>args. invocations (trace (snd (perform X J r w))) = invocations (trace w) @ [args] \<and>
                    (error_alone args \<or> no_error args))) \<and>
         (\<forall>c u opts x f. r = UpdateOne c u opts x \<and> X = Some f \<and> answered w 1 \<longrightarrow>
            (\<exists>args. invocations (trace (snd (perform X J r w))) = invocations (trace w) @ [args] \<and>
                    (error_alone args \<or> no_error args))) \<and>
         (\<forall>pl opts x. r = Aggregate pl opts x \<and> answered w 1 \<longrightarrow>
            invocations (trace (snd (perform X J r w))) =
              invocations (trace w) @
                [if truthy (arg_at (replies w ! 0) 0) then [arg_at (replies w ! 0) 0]
                 else replies w ! 1]) \<and>
         (\<forall>x. r = EnsureIndexes x \<and> declared w = [] \<and> next_tick w = [] \<longrightarrow>
            invocations (trace (snd (perform X J r w))) = invocations (trace w) \<and>
            invocations (trace (next_turn (snd (perform X J r w)))) = invocations (trace w) @ [[]]) \<and>
         (\<forall>x. r = EnsureIndexes x \<and> declared w \<noteq> [] \<and>
              (\<forall>s\<in>set (declared w). is_obj (snd s)) \<and> answered w (length (declared w)) \<longrightarrow>
            (\<exists>args. invocations (trace (snd (perform X J r w))) = invocations (trace w) @ [args] \<and>
                    (error_alone args \<or> no_error args)))"
proof (intro conjI impI allI)
  assume "normalized r \<and> answered w 1"
  then show "\<exists>args. invocations (trace (snd (perform X J r w))) = invocations (trace w) @ [args] \<and>
      (error_alone args \<or> no_error args)"
    using once_normalized [OF assms] by blast
next
  fix c u opts x f
  assume h: "r = UpdateOne c u opts x \<and> X = Some f \<and> answered w 1"
  then obtain a b rs where rs: "replies w = a # b # rs"
    by (cases "replies w"; cases "tl (replies w)") (simp_all add: answered_def)
  with h have acq: "\<not> truthy (arg_at a 0) \<Longrightarrow> is_handle (arg_at a 1)"
    by (auto simp: answered_def)
  from h assms have cb: "shift1 opts x = Fn cb" by simp
  show "\<exists>args. invocations (trace (snd (perform X J r w))) = invocations (trace w) @ [args] \<and>
      (error_alone args \<or> no_error args)"
    using once_updateOne [OF rs acq cb, of f J c u] h envelope_cases by auto
next
  fix pl opts x
  assume h: "r = Aggregate pl opts x \<and> answered w 1"
  then obtain a b rs where rs: "replies w = a # b # rs"
    by (cases "replies w"; cases "tl (replies w)") (simp_all add: answered_def)
  with h have acq: "\<not> truthy (arg_at a 0) \<Longrightarrow> is_handle (arg_at a 1)"
    by (auto simp: answered_def)
  from h assms have cb: "shift1 opts x = Fn cb" by simp
  show "invocations (trace (snd (perform X J r w))) =
      invocations (trace w) @
        [if truthy (arg_at (replies w ! 0) 0) then [arg_at (replies w ! 0) 0] else replies w ! 1]"
    using once_aggregate [OF rs acq cb, of pl] h rs by simp
next
  fix x
  assume h: "r = EnsureIndexes x \<and> declared w = [] \<and> next_tick w = []"
  with assms have x: "x = Fn cb" by simp
  from h have e: "this_indexes (self w) = None \<or> this_indexes (self w) = Some []"
    by (auto simp: declared_def split: option.splits)
  have run: "ensureIndexes (Fn cb) w = (Normal, nextTick (Run cb) w)"
    using e by (rule ensureIndexes_empty)
  show "invocations (trace (snd (perform X J r w))) = invocations (trace w)"
    using h x run by simp
  show "invocations (trace (next_turn (snd (perform X J r w)))) = invocations (trace w) @ [[]]"
    using h x run next_turn_single_callback [of w cb] by simp
next
  fix x
  assume h: "r = EnsureIndexes x \<and> declared w \<noteq> [] \<and>
      (\<forall>s\<in>set (declared w). is_obj (snd s)) \<and> answered w (length (declared w))"
  with assms have x: "x = Fn cb" by simp
  show "\<exists>args. invocations (trace (snd (perform X J r w))) = invocations (trace w) @ [args] \<and>
      (error_alone args \<or> no_error args)"
    using ensureIndexes_once [of w cb] h x by simp
qed

theorem one_completion_witness:
  "(\<exists>args. invocations (trace (snd (perform (Some extend_merge) stringify_empty
        (Update (Obj []) (Obj [(''n'', Num 2)]) (Fn quiet))
        (fresh users [granted, [Null, Num 1]])))) = [args] \<and>
      (error_alone args \<or> no_error args)) \<and>
   invocations (trace (snd (perform (Some extend_merge) stringify_empty (Aggregate (Arr []) (Fn quiet) (Val Undefined))
        (fresh users [granted, [Null, Arr [Num 7]]])))) = [[Null, Arr [Num 7]]] \<and>
   invocations (trace (next_turn (snd (perform (Some extend_merge) stringify_empty (EnsureIndexes (Fn quiet))
        (fresh users []))))) = [[]] \<and>
   (\<exists>args. invocations (trace (snd (perform (Some extend_merge) stringify_empty (EnsureIndexes (Fn quiet))
        (fresh indexed_users [granted, [Null], [Null]])))) = [args] \<and>
      (error_alone args \<or> no_error args))"
proof -
  let ?u = "Update (Obj []) (Obj [(''n'', Num 2)]) (Fn quiet)"
  let ?wu = "fresh users [granted, [Null, Num 1]]"
  let ?a = "Aggregate (Arr []) (Fn quiet) (Val Undefined)"
  let ?wa = "fresh users [granted, [Null, Arr [Num 7]]]"
  let ?e = "EnsureIndexes (Fn quiet)"
  let ?w0 = "fresh users []"
  let ?wi = "fresh indexed_users [granted, [Null], [Null]]"
  have ans: "answered ?wu 1" "answered ?wa 1"
    by (simp_all add: answered_def granted_def)
  have "callback_of ?u = Fn quiet" by simp
  from one_completion [OF this, where w = "?wu" and X = "Some extend_merge" and J = stringify_empty] ans(1)
  have 1: "\<exists>args. invocations (trace (snd (perform (Some extend_merge) stringify_empty ?u ?wu))) =
      invocations (trace ?wu) @ [args] \<and> (error_alone args \<or> no_error args)"
    by simp
  have "callback_of ?a = Fn quiet" by simp
  from one_completion [OF this, where w = "?wa" and X = "Some extend_merge" and J = stringify_empty] ans(2)
  have 2: "invocations (trace (snd (perform (Some extend_merge) stringify_empty ?a ?wa))) =
      invocations (trace ?wa) @
        [if truthy (arg_at (replies ?wa ! 0) 0) then [arg_at (replies ?wa ! 0) 0]
         else replies ?wa ! 1]"
    by blast
  have d0: "declared ?w0 = []" "next_tick ?w0 = []"
    by (simp_all add: declared_def users_def)
  have "callback_of ?e = Fn quiet" by simp
  from one_completion [OF this, where w = "?w0" and X = "Some extend_merge" and J = stringify_empty] d0
  have 3: "invocations (trace (next_turn (snd (perform (Some extend_merge) stringify_empty ?e ?w0)))) =
      invocations (trace ?w0) @ [[]]"
    by blast
  have di: "declared ?wi \<noteq> []" "\<forall>s\<in>set (declared ?wi). is_obj (snd s)"
    "answered ?wi (length (declared ?wi))"
    by (simp_all add: declared_def indexed_users_def answered_def granted_def)
  have "callback_of ?e = Fn quiet" by simp
  from one_completion [OF this, where w = "?wi" and X = "Some extend_merge" and J = stringify_empty] di
  have 4: "\<exists>args. invocations (trace (snd (perform (Some extend_merge) stringify_empty ?e ?wi))) =
      invocations (trace ?wi) @ [args] \<and> (error_alone args \<or> no_error args)"
    by blast
  from 1 2 3 4 show ?thesis by (simp add: granted_def)
qed


section \<open>What the sibling operations do\<close>

subsection \<open>The instance is left alone\<close>

lemma self_call_callback [simp]: "self (snd (call (callable_of cb) args w)) = self w"
  by (cases cb) simp_all

lemma self_deliver:
  "self (snd (deliver (Fun F) r w)) = self (snd (F Undefined r w))"
  by (simp split: prod.splits completion.splits)

lemma self_deliver_callback [simp]: "self (snd (deliver (callable_of cb) r w)) = self w"
  by (cases cb) (simp_all split: prod.splits completion.splits)

lemma self_driver_call:
  assumes "\<And>r w'. self (snd (F Undefined r w')) = self w'"
  shows "self (snd (driver_call name args (tick (Fun F)) w)) = self w"
    and "self (snd (driver_call name args (Fun F) w)) = self w"
  using assms
  by (simp_all add: driver_call_def Let_def self_deliver del: deliver.simps split: list.splits)

lemma self_driver_call_callback [simp]:
  "self (snd (driver_call name args (callable_of cb) w)) = self w"
  by (simp add: driver_call_def Let_def split: list.splits)

lemma self_handled:
  assumes "\<And>e x w'. self (snd (H e x w')) = self w'"
  shows "self (snd (coll_method c name args (tick (handler H)) w)) = self w"
    and "self (snd (coll_method c name args (handler H) w)) = self w"
    and "self (snd (find_toArray c args (tick (handler H)) w)) = self w"
    and "self (snd (getCollection (handler H) w)) = self w"
  using assms
  by (simp_all add: coll_method_if find_toArray_if getCollection_def db_collection_def
        handler_def self_driver_call)

lemma self_coll_method_callback [simp]:
  "self (snd (coll_method c name args (callable_of cb) w)) = self w"
  by (simp add: coll_method_if)

lemma aggregate_keeps_instance: "self (snd (aggregate pl opts x w)) = self w"
  by (cases opts) (simp_all add: aggregate_def self_handled del: callable_of.simps)

lemma crud_keeps_instance:
  "self (snd (find_op c p opts x w)) = self w"
  "self (snd (findOne J c p x w)) = self w"
  "self (snd (findOnly c p x w)) = self w"
  "self (snd (count c x w)) = self w"
  "self (snd (create J docs x w)) = self w"
  "self (snd (createOne J docs x w)) = self w"
  "self (snd (update J c u x w)) = self w"
  "self (snd (updateOne ext J c u opts x w)) = self w"
  "self (snd (findAndUpdate J c u x w)) = self w"
  "self (snd (remove_op J c x w)) = self w"
  "self (snd (removeOnly c x w)) = self w"
  "self (snd (findAndRemove J c x w)) = self w"
  by (auto simp: find_op_def findOne_def findOnly_def count_def create_def createOne_def
        update_def updateOne_def findAndUpdate_def remove_op_def removeOnly_def
        findAndRemove_def self_handled split: arg.splits option.splits)

lemma perform_keeps_instance:
  "(\<forall>x. r \<noteq> EnsureIndexes x) \<Longrightarrow> self (snd (perform X J r w)) = self w"
  by (cases r) (simp_all add: crud_keeps_instance aggregate_keeps_instance)

subsection \<open>Wrapped handlers keep exceptions away from the driver\<close>

lemma observed_call_callback [simp]:
  "observed (trace (snd (call (callable_of cb) args w))) = observed (trace w)"
  by (cases cb) simp_all

lemma observed_done_cb [simp]:
  "observed (trace (snd (done_cb cb e w))) = observed (trace w)"
  by (simp add: done_cb_def)

lemma observed_deliver_tick:
  "observed (trace (snd (deliver (tick (Fun F)) r w))) = observed (trace (snd (F Undefined r w)))"
  by simp

lemma observed_driver_call:
  assumes "\<And>r w'. observed (trace (snd (F Undefined r w'))) = observed (trace w')"
  shows "observed (trace (snd (driver_call name args (tick (Fun F)) w))) = observed (trace w)"
  using assms
  by (simp add: driver_call_def Let_def split: list.splits)

lemma observed_handled:
  assumes "\<And>e x w'. observed (trace (snd (H e x w'))) = observed (trace w')"
  shows "observed (trace (snd (coll_method c name args (tick (handler H)) w))) = observed (trace w)"
    and "observed (trace (snd (find_toArray c args (tick (handler H)) w))) = observed (trace w)"
    and "observed (trace (snd (getCollection (handler H) w))) = observed (trace w)"
  using assms
  by (simp_all add: coll_method_if find_toArray_if getCollection_def db_collection_def
        handler_def observed_driver_call)

lemma wrapped_shield_driver:
  "observed (trace (snd (find_op c p opts x w))) = observed (trace w)"
  "observed (trace (snd (findOne J c p x w))) = observed (trace w)"
  "observed (trace (snd (findOnly c p x w))) = observed (trace w)"
  "observed (trace (snd (create J docs x w))) = observed (trace w)"
  "observed (trace (snd (createOne J docs x w))) = observed (trace w)"
  "observed (trace (snd (update J c u x w))) = observed (trace w)"
  "observed (trace (snd (updateOne ext J c u opts x w))) = observed (trace w)"
  "observed (trace (snd (findAndUpdate J c u x w))) = observed (trace w)"
  "observed (trace (snd (remove_op J c x w))) = observed (trace w)"
  "observed (trace (snd (removeOnly c x w))) = observed (trace w)"
  by (auto simp: find_op_def findOne_def findOnly_def create_def createOne_def
        update_def updateOne_def findAndUpdate_def remove_op_def removeOnly_def
        observed_handled split: arg.splits option.splits)

lemma create_index_shields_driver:
  "observed (trace (snd (create_index cb coll specs w))) = observed (trace w)"
proof (induction specs arbitrary: w)
  case Nil
  show ?case by simp
next
  case (Cons s specs)
  show ?case
    by (simp add: Let_def coll_method_if observed_driver_call Cons.IH split: option.splits)
qed

lemma ensureIndexes_shields_driver:
  "observed (trace (snd (ensureIndexes cb w))) = observed (trace w)"
  by (cases cb)
     (simp_all add: ensureIndexes_def Let_def observed_handled create_index_shields_driver)

lemma ticked_shield_driver:
  "ticked r \<Longrightarrow> observed (trace (snd (perform X J r w))) = observed (trace w)"
  by (cases r) (simp_all add: wrapped_shield_driver ensureIndexes_shields_driver)


subsection \<open>The latest variant asks for the collection first, in strict mode\<close>

lemma grows_call_callback [simp]:
  "prefix (trace w) (trace (snd (call (callable_of cb) args w)))"
  by (cases cb) simp_all

lemma grows_done_cb [simp]: "prefix (trace w) (trace (snd (done_cb cb e w)))"
  by (simp add: done_cb_def)

lemma grows_deliver:
  assumes "prefix (trace w) (trace (snd (F Undefined r w)))"
  shows "prefix (trace w) (trace (snd (deliver (Fun F) r w)))"
  using assms by (auto split: prod.splits completion.splits intro: prefix_order.trans)

lemma grows_deliver_callback [simp]:
  "prefix (trace w) (trace (snd (deliver (callable_of cb) r w)))"
  by (cases cb) (simp_all split: completion.splits)

lemma issued_first:
  assumes "\<And>r w'. prefix (trace w') (trace (snd (F Undefined r w')))"
  shows "prefix (trace w @ [DriverCall name args])
           (trace (snd (driver_call name args (tick (Fun F)) w)))"
    and "prefix (trace w @ [DriverCall name args])
           (trace (snd (driver_call name args (Fun F) w)))"
proof -
  show "prefix (trace w @ [DriverCall name args])
      (trace (snd (driver_call name args (tick (Fun F)) w)))"
  proof (cases "replies w")
    case Nil
    then show ?thesis by (simp add: driver_call_def Let_def)
  next
    case (Cons r rs)
    let ?w2 = "emit (DriverReply r) ((emit (DriverCall name args) w)\<lparr>replies := rs\<rparr>)"
    have "prefix (trace w @ [DriverCall name args]) (trace ?w2)" by simp
    also have "prefix (trace ?w2) (trace (snd (F Undefined r ?w2)))" by (rule assms)
    finally show ?thesis using Cons by (simp add: driver_call_def Let_def)
  qed
  show "prefix (trace w @ [DriverCall name args])
      (trace (snd (driver_call name args (Fun F) w)))"
  proof (cases "replies w")
    case Nil
    then show ?thesis by (simp add: driver_call_def Let_def)
  next
    case (Cons r rs)
    let ?w2 = "emit (DriverReply r) ((emit (DriverCall name args) w)\<lparr>replies := rs\<rparr>)"
    have "prefix (trace w @ [DriverCall name args]) (trace ?w2)" by simp
    also have "prefix (trace ?w2) (trace (snd (deliver (Fun F) r ?w2)))"
      by (rule grows_deliver) (rule assms)
    finally show ?thesis using Cons by (simp add: driver_call_def Let_def del: deliver.simps)
  qed
qed

lemma issued_first_callback:
  "prefix (trace w @ [DriverCall name args])
     (trace (snd (driver_call name args (callable_of cb) w)))"
proof (cases "replies w")
  case Nil
  then show ?thesis by (simp add: driver_call_def Let_def)
next
  case (Cons r rs)
  let ?w2 = "emit (DriverReply r) ((emit (DriverCall name args) w)\<lparr>replies := rs\<rparr>)"
  have "prefix (trace w @ [DriverCall name args]) (trace ?w2)" by simp
  also have "prefix (trace ?w2) (trace (snd (deliver (callable_of cb) r ?w2)))"
    by (rule grows_deliver_callback)
  finally show ?thesis using Cons by (simp add: driver_call_def Let_def)
qed

lemma prefix_dropR: "prefix (xs @ [x]) ys \<Longrightarrow> prefix xs ys"
  by (metis append_prefixD)

lemma issued_first_handler:
  assumes "\<And>e x w'. prefix (trace w') (trace (snd (H e x w')))"
  shows "prefix (trace w @ [DriverCall name args])
           (trace (snd (driver_call name args (tick (handler H)) w)))"
    and "prefix (trace w @ [DriverCall name args])
           (trace (snd (driver_call name args (handler H) w)))"
  using issued_first [of "\<lambda>this args. H (arg_at args 0) (arg_at args 1)" w name args] assms
  by (simp_all add: handler_def)

lemma grows_handled:
  assumes "\<And>e x w'. prefix (trace w') (trace (snd (H e x w')))"
  shows "prefix (trace w) (trace (snd (coll_method c name args (tick (handler H)) w)))"
    and "prefix (trace w) (trace (snd (coll_method c name args (handler H) w)))"
    and "prefix (trace w) (trace (snd (find_toArray c args (tick (handler H)) w)))"
proof -
  have 1: "prefix (trace v @ [DriverCall m as]) (trace (snd (driver_call m as (tick (handler H)) v)))"
    for v m as
    by (rule issued_first_handler(1)) (rule assms)
  have 2: "prefix (trace v @ [DriverCall m as]) (trace (snd (driver_call m as (handler H) v)))"
    for v m as
    by (rule issued_first_handler(2)) (rule assms)
  show "prefix (trace w) (trace (snd (coll_method c name args (tick (handler H)) w)))"
    using 1 [of w name args] by (auto simp: coll_method_if dest: prefix_dropR)
  show "prefix (trace w) (trace (snd (coll_method c name args (handler H) w)))"
    using 2 [of w name args] by (auto simp: coll_method_if dest: prefix_dropR)
  show "prefix (trace w) (trace (snd (find_toArray c args (tick (handler H)) w)))"
    using 1 [of "emit (DriverCall ''find'' args) w" "''toArray''" "[]"]
    by (auto simp: find_toArray_if dest: append_prefixD)
qed

lemma grows_coll_method_callback [simp]:
  "prefix (trace w) (trace (snd (coll_method c name args (callable_of cb) w)))"
  using issued_first_callback [of w name args cb]
  by (auto simp: coll_method_if dest: prefix_dropR)

lemma acquired_first:
  assumes "\<And>e x w'. prefix (trace w') (trace (snd (H e x w')))"
  shows "prefix (trace w @ [strict_acquisition w]) (trace (snd (getCollection (handler H) w)))"
proof -
  have "prefix (trace w @ [DriverCall ''collection''
        [this_collection (self w), Obj [(''w'', Num 1), (''strict'', Bool True)]]])
      (trace (snd (driver_call ''collection''
        [this_collection (self w), Obj [(''w'', Num 1), (''strict'', Bool True)]]
        (tick (handler H)) w)))"
    by (rule issued_first_handler(1)) (rule assms)
  then show ?thesis
    by (simp add: getCollection_def db_collection_def strict_acquisition_def)
qed

lemma latest_operations_acquire_first:
  "prefix (trace w @ [strict_acquisition w]) (trace (snd (find_op c p opts x w)))"
  "prefix (trace w @ [strict_acquisition w]) (trace (snd (findOne J c p x w)))"
  "prefix (trace w @ [strict_acquisition w]) (trace (snd (findOnly c p x w)))"
  "prefix (trace w @ [strict_acquisition w]) (trace (snd (aggregate pl opts x w)))"
  "prefix (trace w @ [strict_acquisition w]) (trace (snd (count c x w)))"
  "prefix (trace w @ [strict_acquisition w]) (trace (snd (create J docs x w)))"
  "prefix (trace w @ [strict_acquisition w]) (trace (snd (createOne J docs x w)))"
  "prefix (trace w @ [strict_acquisition w]) (trace (snd (update J c u x w)))"
  "prefix (trace w @ [strict_acquisition w]) (trace (snd (updateOne ext J c u opts x w)))"
  "prefix (trace w @ [strict_acquisition w]) (trace (snd (findAndUpdate J c u x w)))"
  "prefix (trace w @ [strict_acquisition w]) (trace (snd (remove_op J c x w)))"
  "prefix (trace w @ [strict_acquisition w]) (trace (snd (removeOnly c x w)))"
  "prefix (trace w @ [strict_acquisition w]) (trace (snd (findAndRemove J c x w)))"
  by (auto simp: op_defs grows_handled simp del: callable_of.simps
        split: arg.splits option.splits intro!: acquired_first)

lemma grows_create_index:
  "prefix (trace w) (trace (snd (create_index cb coll specs w)))"
proof (induction specs arbitrary: w)
  case Nil
  show ?case by simp
next
  case (Cons s specs)
  let ?w1 = "w\<lparr>self := (self w)\<lparr>this_indexes := Some specs\<rparr>\<rparr>"
  have step: "prefix (trace ?w1)
      (trace (snd (driver_call ''ensureIndex'' [fst s, v]
        (tick (Fun (\<lambda>this args w2.
           if truthy (arg_at args 0) then done_cb cb (arg_at args 0) w2
           else create_index cb coll specs w2))) ?w1)))" for v
    by (rule append_prefixD, rule issued_first(1)) (simp add: Cons.IH)
  show ?case
    using step by (simp add: Let_def coll_method_if split: option.splits)
qed

lemma ensureIndexes_acquires_first:
  assumes "declared w \<noteq> []"
  shows "prefix (trace w @ [strict_acquisition w]) (trace (snd (ensureIndexes cb w)))"
proof -
  from assms obtain specs where specs: "this_indexes (self w) = Some specs" "specs \<noteq> []"
    by (auto simp: declared_def split: option.splits)
  have "prefix (trace w @ [strict_acquisition w])
      (trace (snd (getCollection (handler (\<lambda>err collection.
          if truthy err then done_cb cb err
          else create_index cb collection specs)) w)))"
    by (rule acquired_first) (simp add: grows_create_index)
  then show ?thesis using specs by (simp add: ensureIndexes_def)
qed

text \<open>
  Every operation of the latest variant, and \<open>ensureIndexes\<close> when indexes are declared,
  starts by asking the driver for the collection with \<^verbatim>\<open>{w: 1, strict: true}\<close>; when
  the driver answers with an error, nothing else is issued and the callback receives that
  error alone.
\<close>

lemma latest_acquires_first:
  assumes "\<forall>x. r = EnsureIndexes x \<longrightarrow> declared w \<noteq> []"
  shows "prefix (trace w @ [strict_acquisition w]) (trace (snd (perform X J r w)))"
  using assms
  by (cases r) (simp_all add: latest_operations_acquire_first ensureIndexes_acquires_first)

lemma refused_handler:
  assumes "replies w = a # rs" and "truthy (arg_at a 0)"
  shows "trace (snd (getCollection (handler (\<lambda>err collection.
             if truthy err then call (callable_of (Fn cb)) [err] else K err collection)) w)) =
           trace w @ [strict_acquisition w, DriverReply a, Invoke [arg_at a 0]]"
  using assms
  by (simp add: getCollection_def db_collection_def driver_call_def handler_def Let_def
        strict_acquisition_def)

lemma latest_refused:
  assumes "replies w = a # rs" and "truthy (arg_at a 0)" and "callback_of r = Fn cb"
    and "\<forall>x. r = EnsureIndexes x \<longrightarrow> declared w \<noteq> []"
  shows "trace (snd (perform X J r w)) =
           trace w @ [strict_acquisition w, DriverReply a, Invoke [arg_at a 0]]"
proof (cases r)
  case (Find c p opts x)
  then show ?thesis
    using assms(3) refused_handler [OF assms(1,2), of cb]
    by (cases p; cases opts) (simp_all add: find_op_def)
next
  case (FindOne c p x)
  then show ?thesis
    using assms(3) refused_handler [OF assms(1,2), of cb] by (cases p) (simp_all add: findOne_def)
next
  case (FindOnly c p x)
  then show ?thesis
    using assms(3) refused_handler [OF assms(1,2), of cb] by (cases p) (simp_all add: findOnly_def)
next
  case (Aggregate pl opts x)
  then show ?thesis
    using assms(3) refused_handler [OF assms(1,2), of cb]
    by (cases opts) (simp_all add: aggregate_def del: callable_of.simps)
next
  case (Count c x)
  then show ?thesis
    using assms(3) refused_handler [OF assms(1,2), of cb] by (simp add: count_def)
next
  case (Create docs x)
  then show ?thesis
    using assms(3) refused_handler [OF assms(1,2), of cb] by (simp add: create_def)
next
  case (CreateOne doc x)
  then show ?thesis
    using assms(3) refused_handler [OF assms(1,2), of cb] by (simp add: createOne_def)
next
  case (Update c u x)
  then show ?thesis
    using assms(3) refused_handler [OF assms(1,2), of cb] by (simp add: update_def)
next
  case (UpdateOne c u opts x)
  then show ?thesis
    using assms(3) refused_handler [OF assms(1,2), of cb]
    by (cases opts) (simp_all add: updateOne_def)
next
  case (FindAndUpdate c u x)
  then show ?thesis
    using assms(3) refused_handler [OF assms(1,2), of cb] by (simp add: findAndUpdate_def)
next
  case (Remove c x)
  then show ?thesis
    using assms(3) refused_handler [OF assms(1,2), of cb] by (simp add: remove_op_def)
next
  case (RemoveOnly c x)
  then show ?thesis
    using assms(3) refused_handler [OF assms(1,2), of cb] by (simp add: removeOnly_def)
next
  case (FindAndRemove c x)
  then show ?thesis
    using assms(3) refused_handler [OF assms(1,2), of cb] by (simp add: findAndRemove_def)
next
  case (EnsureIndexes x)
  then show ?thesis
    using assms ensureIndexes_refused [of w a rs cb] by simp
qed

end
